theory Spec2Isabelle
  imports Main
begin

section \<open>The host language\<close>

text \<open>
  The interpreter is written in JavaScript. Source text is a list of characters
  (code units up to 255); a JavaScript number is an IEEE-754 double, whose arithmetic
  is not part of the repository. The number type is therefore a type parameter \<open>'n\<close>
  and the primitive operations on numbers are the fields of a \<open>host\<close> record. What
  JavaScript decides from the \<^emph>\<open>types\<close> of operands (string concatenation versus
  addition, conversion of an operand before a comparison, strict equality) is written
  out below, on top of these primitives.
\<close>

record 'n host =
  Number :: "string \<Rightarrow> 'n"
  numToString :: "'n \<Rightarrow> string"
  numNeg :: "'n \<Rightarrow> 'n"
  numAdd :: "'n \<Rightarrow> 'n \<Rightarrow> 'n"
  numSub :: "'n \<Rightarrow> 'n \<Rightarrow> 'n"
  numMul :: "'n \<Rightarrow> 'n \<Rightarrow> 'n"
  numDiv :: "'n \<Rightarrow> 'n \<Rightarrow> 'n"
  numRem :: "'n \<Rightarrow> 'n \<Rightarrow> 'n"
  numLess :: "'n \<Rightarrow> 'n \<Rightarrow> bool option"
  numEq :: "'n \<Rightarrow> 'n \<Rightarrow> bool"
  numTruthy :: "'n \<Rightarrow> bool"
  printSource :: string

text \<open>
  \<open>Number\<close> is \<^verbatim>\<open>Number(s)\<close> on a string; \<open>numLess\<close> is the comparison of two
  numbers, \<open>None\<close> when it is undefined (an operand is NaN); \<open>numEq\<close> is \<^verbatim>\<open>===\<close> on
  two numbers; \<open>numTruthy\<close> is the truth value of a number; \<open>printSource\<close> is the
  text that the built-in \<^verbatim>\<open>print\<close> function converts to.
\<close>

datatype 'n jsval =
  JNull
  | JBool bool
  | JNum 'n
  | JStr string
  | JFun

subsection \<open>Strings\<close>

definition LF :: char where "LF = CHR 0x0A"
definition CR :: char where "CR = CHR 0x0D"
definition TAB :: char where "TAB = CHR 0x09"

text \<open>The characters of the class \<^verbatim>\<open>\s\<close>, which are also the ones \<^verbatim>\<open>trim\<close> removes.\<close>

definition isSpace :: "char \<Rightarrow> bool" where
  "isSpace c \<longleftrightarrow> c \<in> set [CHR 0x09, CHR 0x0A, CHR 0x0B, CHR 0x0C, CHR 0x0D, CHR 0x20, CHR 0xA0]"

definition isDigit :: "char \<Rightarrow> bool" where
  "isDigit c \<longleftrightarrow> c \<in> set ''0123456789''"

definition isIdentStart :: "char \<Rightarrow> bool" where
  "isIdentStart c \<longleftrightarrow> c \<in> set ''ABCDEFGHIJKLMNOPQRSTUVWXYZabcdefghijklmnopqrstuvwxyz_''"

definition isIdentChar :: "char \<Rightarrow> bool" where
  "isIdentChar c \<longleftrightarrow> isIdentStart c \<or> isDigit c"

definition trim :: "string \<Rightarrow> string" where
  "trim s = rev (dropWhile isSpace (rev (dropWhile isSpace s)))"

definition startsWith :: "string \<Rightarrow> string \<Rightarrow> bool" where
  "startsWith s p \<longleftrightarrow> take (length p) s = p"

text \<open>\<^verbatim>\<open>s.indexOf(sub)\<close>: the first index at which \<open>sub\<close> occurs, or \<open>-1\<close>.\<close>

fun indexOfFrom :: "string \<Rightarrow> string \<Rightarrow> nat \<Rightarrow> int" where
  "indexOfFrom [] sub i = (if sub = [] then int i else - 1)"
| "indexOfFrom (c # cs) sub i =
     (if startsWith (c # cs) sub then int i else indexOfFrom cs sub (i + 1))"

definition indexOf :: "string \<Rightarrow> string \<Rightarrow> int" where
  "indexOf s sub = indexOfFrom s sub 0"

text \<open>\<^verbatim>\<open>source.split(/\r?\n/)\<close>: a line ends at a line feed, with the carriage return before it.\<close>

fun splitLines :: "string \<Rightarrow> string list" where
  "splitLines [] = [] # []"
| "splitLines [c] = (if c = LF then [] # [] # [] else [c] # [])"
| "splitLines (c # d # cs) =
     (if c = LF then [] # splitLines (d # cs)
      else if c = CR \<and> d = LF then [] # splitLines cs
      else (case splitLines (d # cs) of
              [] \<Rightarrow> [c] # []
            | l # ls \<Rightarrow> (c # l) # ls))"

text \<open>\<^verbatim>\<open>toUpperCase\<close> on the letters a to z; the lexer applies it to keywords only.\<close>

definition toUpper :: "char \<Rightarrow> char" where
  "toUpper c =
     (case map_of (zip ''abcdefghijklmnopqrstuvwxyz'' ''ABCDEFGHIJKLMNOPQRSTUVWXYZ'') c of
        None \<Rightarrow> c
      | Some u \<Rightarrow> u)"

definition toUpperCase :: "string \<Rightarrow> string" where
  "toUpperCase s = map toUpper s"

section \<open>Structured errors (lexer.js)\<close>

text \<open>
  A \<^verbatim>\<open>QastError\<close> is an object; it is modelled by the table of its own properties, in
  the order in which they are created. The constructor of the base class \<^verbatim>\<open>Error\<close>,
  called first, creates \<open>stack\<close> and \<open>message\<close>; the constructor of \<^verbatim>\<open>QastError\<close> then
  assigns the other six. The value of \<open>stack\<close> is a string that the host computes (the
  stack trace); its text is not modelled, and is the value \<open>FTrace\<close>.
\<close>

datatype field = FUndefined | FBool bool | FNat nat | FStr string | FTrace

type_synonym qerror = "(string \<times> field) list"

definition QastError :: "string \<Rightarrow> field \<Rightarrow> nat \<Rightarrow> nat \<Rightarrow> field \<Rightarrow> qerror" where
  "QastError message file line column hint =
     [(''stack'', FTrace),
      (''message'', FStr message),
      (''name'', FStr ''QastError''),
      (''isQastError'', FBool True),
      (''file'', file),
      (''line'', FNat line),
      (''column'', FNat column),
      (''hint'', hint)]"

text \<open>Reading a property of an object: \<open>FUndefined\<close> when the object has no such property.\<close>

definition getField :: "qerror \<Rightarrow> string \<Rightarrow> field" where
  "getField e k = (case map_of e k of None \<Rightarrow> FUndefined | Some v \<Rightarrow> v)"

definition hasField :: "qerror \<Rightarrow> string \<Rightarrow> bool" where
  "hasField e k \<longleftrightarrow> map_of e k \<noteq> None"

section \<open>The tokenizer (lexer.js)\<close>

record 'n token =
  tok_type :: string
  tok_value :: "'n jsval"
  tok_line :: nat
  tok_column :: nat
  tok_file :: string

definition mkToken :: "string \<Rightarrow> 'n jsval \<Rightarrow> nat \<Rightarrow> nat \<Rightarrow> string \<Rightarrow> 'n token" where
  "mkToken ty v l c f =
     \<lparr>tok_type = ty, tok_value = v, tok_line = l, tok_column = c, tok_file = f\<rparr>"

definition KEYWORDS :: "string list" where
  "KEYWORDS = [''print'', ''set'', ''input'', ''if'', ''elif'', ''else'', ''end'',
               ''loop'', ''while'', ''fn'', ''return'']"

definition keywordOrIdent :: "string \<Rightarrow> string" where
  "keywordOrIdent v = (if v \<in> set KEYWORDS then toUpperCase v else ''IDENT'')"

text \<open>
  \<open>readString\<close>: the scan after the opening quote. The arguments are the quote, the text
  from \<open>pos\<close> on, \<open>pos\<close> and the value read so far; the result is the value, the end
  position and the text left, or \<open>None\<close> when the text ends first (the caller throws).
\<close>

fun readStringLoop :: "char \<Rightarrow> string \<Rightarrow> nat \<Rightarrow> string \<Rightarrow> (string \<times> nat \<times> string) option" where
  "readStringLoop quote [] pos v = None"
| "readStringLoop quote (ch # rest) pos v =
     (if ch = CHR 0x5C then
        (case rest of
           [] \<Rightarrow> None
         | next # rest' \<Rightarrow>
             readStringLoop quote rest' (pos + 2)
               (v @ (if next = CHR ''n'' then [LF] else if next = CHR ''t'' then [TAB] else [next])))
      else if ch = quote then Some (v, pos + 1, rest)
      else readStringLoop quote rest (pos + 1) (v @ [ch]))"

definition readString :: "string \<Rightarrow> nat \<Rightarrow> string \<Rightarrow> nat \<Rightarrow> qerror + (string \<times> nat \<times> string)" where
  "readString fromStart start file line =
     (case readStringLoop (hd fromStart) (tl fromStart) (start + 1) [] of
        None \<Rightarrow> Inl (QastError ''Unterminated string literal'' (FStr file) line (start + 1) FUndefined)
      | Some r \<Rightarrow> Inr r)"

definition readNumber :: "'n host \<Rightarrow> string \<Rightarrow> nat \<Rightarrow> 'n \<times> nat \<times> string" where
  "readNumber h fromStart start =
     (let raw = takeWhile (\<lambda>c. isDigit c \<or> c = CHR ''.'') fromStart
      in (Number h raw, start + length raw, drop (length raw) fromStart))"

definition readIdent :: "string \<Rightarrow> nat \<Rightarrow> string \<times> nat \<times> string" where
  "readIdent fromStart start =
     (let raw = takeWhile isIdentChar fromStart
      in (raw, start + length raw, drop (length raw) fromStart))"

lemma readStringLoop_shorter:
  "readStringLoop q xs pos v = Some (v', p', r) \<Longrightarrow> length r < length xs"
proof (induction q xs pos v rule: readStringLoop.induct)
  case (1 quote pos v)
  then show ?case by simp
next
  case (2 quote ch rest pos v)
  show ?case
  proof (cases "ch = CHR 0x5C")
    case True
    with 2 show ?thesis by (cases rest) (auto split: if_splits)
  next
    case False
    with 2 show ?thesis by (auto split: if_splits)
  qed
qed

text \<open>The operators of two characters and the operators and punctuation of one.\<close>

definition twoCharOps :: "string list" where
  "twoCharOps = [''=='', ''!='', ''>='', ''<='', ''&&'', ''||'']"

definition oneCharOps :: string where
  "oneCharOps = ''+-*/%><=(){}[],.''"

text \<open>
  \<open>tokenizeStatement\<close>: the loop over the text after the prefix. \<open>rest\<close> is the text from
  \<open>pos\<close> on, so that its head is \<^verbatim>\<open>text[pos]\<close>; \<open>tokens\<close> is the array the tokens are
  pushed to.
\<close>

function tokenizeLoop ::
  "'n host \<Rightarrow> string \<Rightarrow> nat \<Rightarrow> 'n token list \<Rightarrow> string \<Rightarrow> nat \<Rightarrow> qerror + 'n token list" where
  "tokenizeLoop h [] pos tokens file line = Inr tokens"
| "tokenizeLoop h (ch # rest) pos tokens file line =
     (let column = pos + 1 in
      if isSpace ch then tokenizeLoop h rest (pos + 1) tokens file line
      else if ch = CHR 0x22 \<or> ch = CHR 0x27 then
        (case readString (ch # rest) pos file line of
           Inl e \<Rightarrow> Inl e
         | Inr (v, endPos, rest') \<Rightarrow>
             tokenizeLoop h rest' endPos
               (tokens @ [mkToken ''STRING'' (JStr v) line column file]) file line)
      else if isDigit ch then
        (case readNumber h (ch # rest) pos of
           (v, endPos, rest') \<Rightarrow>
             tokenizeLoop h rest' endPos
               (tokens @ [mkToken ''NUMBER'' (JNum v) line column file]) file line)
      else if isIdentStart ch then
        (case readIdent (ch # rest) pos of
           (v, endPos, rest') \<Rightarrow>
             tokenizeLoop h rest' endPos
               (tokens @ [mkToken (keywordOrIdent v) (JStr v) line column file]) file line)
      else
        (let two = take 2 (ch # rest) in
         if two \<in> set twoCharOps then
           tokenizeLoop h (drop 1 rest) (pos + 2)
             (tokens @ [mkToken ''OP'' (JStr two) line column file]) file line
         else if ch \<in> set oneCharOps then
           tokenizeLoop h rest (pos + 1)
             (tokens @ [mkToken ''OP'' (JStr [ch]) line column file]) file line
         else
           Inl (QastError (''Unexpected character '' @ [CHR 0x27, ch, CHR 0x27])
                  (FStr file) line column FUndefined)))"
  by pat_completeness auto
termination
proof (relation "measure (\<lambda>(h, rest, pos, tokens, fl, ln). length rest)", goal_cases)
  case 1 show ?case by simp
next
  case 2 then show ?case by simp
next
  case (3 h ch rest pos tokens fl ln x y v z endPos rest')
  then have "readStringLoop ch rest (pos + 1) [] = Some (v, endPos, rest')"
    by (auto simp: readString_def split: option.splits)
  then show ?case by (auto dest: readStringLoop_shorter)
next
  case 4 then show ?case
    by (simp add: readNumber_def Let_def)
next
  case 5 then show ?case
    by (simp add: readIdent_def Let_def isIdentChar_def)
next
  case 6 then show ?case by simp
next
  case 7 then show ?case by simp
qed

definition tokenizeStatement ::
  "'n host \<Rightarrow> string \<Rightarrow> 'n token list \<Rightarrow> string \<Rightarrow> nat \<Rightarrow> qerror + 'n token list" where
  "tokenizeStatement h text tokens file line = tokenizeLoop h text 0 tokens file line"

text \<open>
  \<open>lex\<close>: the loop over the lines. \<open>i\<close> is the index of the line \<open>raw\<close>.
\<close>

fun lexLines ::
  "'n host \<Rightarrow> string list \<Rightarrow> nat \<Rightarrow> bool \<Rightarrow> 'n token list \<Rightarrow> string \<Rightarrow> qerror + 'n token list" where
  "lexLines h [] i headerFound tokens file = Inr tokens"
| "lexLines h (raw # rest) i headerFound tokens file =
     (let lineNum = i + 1; trimmed = trim raw in
      if trimmed = [] then lexLines h rest (i + 1) headerFound tokens file
      else if startsWith trimmed ''#'' then lexLines h rest (i + 1) headerFound tokens file
      else if \<not> headerFound then
        (if \<not> startsWith trimmed ''new qas'' then
           Inl (QastError ''Missing QasT header (new qas).'' (FStr file) lineNum 1
                  (FStr ''First non-empty line must be: new qas''))
         else lexLines h rest (i + 1) True tokens file)
      else if \<not> startsWith trimmed ''q.'' then
        Inl (QastError (''Executable lines must start with '' @ [CHR 0x27] @ ''q.'' @ [CHR 0x27] @ ''.'')
               (FStr file) lineNum
               (nat (indexOf raw trimmed + 1)) FUndefined)
      else
        (let stmt = drop (nat (indexOf raw ''q.'' + 2)) raw in
         case tokenizeStatement h stmt tokens file lineNum of
           Inl e \<Rightarrow> Inl e
         | Inr tokens' \<Rightarrow> lexLines h rest (i + 1) headerFound tokens' file))"

definition lex :: "'n host \<Rightarrow> string \<Rightarrow> string \<Rightarrow> qerror + 'n token list" where
  "lex h source file =
     (let lines = splitLines source in
      case lexLines h lines 0 False [] file of
        Inl e \<Rightarrow> Inl e
      | Inr tokens \<Rightarrow> Inr (tokens @ [mkToken ''EOF'' JNull (length lines) 1 file]))"

section \<open>The parser (parser.js)\<close>

record position =
  p_line :: nat
  p_column :: nat

record loc =
  l_start :: position
  l_end :: position

text \<open>
  The nodes of the tree. A field that the parser copies from a token (\<open>name\<close>, \<open>value\<close>,
  \<open>operator\<close>, \<open>prompt\<close>, a parameter) holds the token's value as it is. The last field
  is \<open>loc\<close>. \<open>IfStatement\<close> has the fields \<open>tests\<close> (pairs of \<open>test\<close> and \<open>consequent\<close>)
  and \<open>alternate\<close>; \<open>LoopStatement\<close>, \<open>WhileStatement\<close> and \<open>FunctionDef\<close> have a \<open>body\<close>.
\<close>

datatype 'n expr =
  NumberLiteral "'n jsval" loc
  | StringLiteral "'n jsval" loc
  | Identifier "'n jsval" loc
  | UnaryExpression "'n jsval" "'n expr" loc
  | BinaryExpression "'n jsval" "'n expr" "'n expr" loc
  | Grouping "'n expr" loc

datatype 'n stmt =
  PrintStatement "'n expr" loc
  | SetStatement "'n jsval" "'n expr" loc
  | InputStatement "'n jsval" "'n jsval option" loc
  | ExprStatement "'n expr" loc
  | ReturnStatement "'n expr option" loc
  | IfStatement "('n expr \<times> 'n stmt list) list" "'n stmt list option" loc
  | LoopStatement "'n expr" "'n stmt list" loc
  | WhileStatement "'n expr" "'n stmt list" loc
  | FunctionDef "'n jsval" "'n jsval list" "'n stmt list" loc

datatype 'n program = Program (body: "'n stmt list")

fun expr_loc :: "'n expr \<Rightarrow> loc" where
  "expr_loc (NumberLiteral v l) = l"
| "expr_loc (StringLiteral v l) = l"
| "expr_loc (Identifier v l) = l"
| "expr_loc (UnaryExpression opr a l) = l"
| "expr_loc (BinaryExpression opr a b l) = l"
| "expr_loc (Grouping e l) = l"

fun stmt_loc :: "'n stmt \<Rightarrow> loc" where
  "stmt_loc (PrintStatement a l) = l"
| "stmt_loc (SetStatement x v l) = l"
| "stmt_loc (InputStatement x p l) = l"
| "stmt_loc (ExprStatement e l) = l"
| "stmt_loc (ReturnStatement a l) = l"
| "stmt_loc (IfStatement ts a l) = l"
| "stmt_loc (LoopStatement c b l) = l"
| "stmt_loc (WhileStatement t b l) = l"
| "stmt_loc (FunctionDef x ps b l) = l"

text \<open>
  What a run of the interpreter can end with, other than a result: a \<^verbatim>\<open>QastError\<close>
  thrown, a plain \<^verbatim>\<open>Error\<close> thrown, a \<^verbatim>\<open>TypeError\<close> of the host, the wait for a line
  of input that never comes, or the end of the budget of the model (\<open>OutOfFuel\<close>, see
  \<open>parse\<close>).
\<close>

datatype failure =
  Thrown qerror
  | PlainError string
  | TypeError
  | AwaitingInput
  | OutOfFuel

text \<open>The conversion of a value to a string, as a template literal does it.\<close>

fun jsToString :: "'n host \<Rightarrow> 'n jsval \<Rightarrow> string" where
  "jsToString h JNull = ''null''"
| "jsToString h (JBool b) = (if b then ''true'' else ''false'')"
| "jsToString h (JNum n) = numToString h n"
| "jsToString h (JStr s) = s"
| "jsToString h JFun = printSource h"

text \<open>
  \<open>locFrom\<close> takes a token or a node as \<open>startNode\<close>, and a token, a node or nothing as
  \<open>endNode\<close>. A node has a \<open>loc\<close>, a token has none.
\<close>

datatype 'n locarg = AToken "'n token" | AExpr "'n expr"

definition locFrom :: "'n locarg \<Rightarrow> 'n locarg option \<Rightarrow> loc" where
  "locFrom startNode endNode =
     (let s = (case startNode of
                 AExpr e \<Rightarrow> l_start (expr_loc e)
               | AToken t \<Rightarrow> \<lparr>p_line = tok_line t, p_column = tok_column t\<rparr>);
          e = (case endNode of
                 Some (AExpr n) \<Rightarrow> l_end (expr_loc n)
               | _ \<Rightarrow> s)
      in \<lparr>l_start = s, l_end = e\<rparr>)"

text \<open>
  The cursor \<open>pos\<close> is passed to every function and returned with its result. \<open>peek\<close> is
  used on a token array that is not empty (\<open>parse\<close> fails before on an empty one).
\<close>

definition peek :: "'n token list \<Rightarrow> nat \<Rightarrow> 'n token" where
  "peek tokens pos = (if pos < length tokens then tokens ! pos else last tokens)"

definition matches :: "'n token \<Rightarrow> string \<Rightarrow> string option \<Rightarrow> bool" where
  "matches tok ty v \<longleftrightarrow>
     tok_type tok = ty \<and> (case v of None \<Rightarrow> True | Some s \<Rightarrow> tok_value tok = JStr s)"

definition consume ::
  "'n host \<Rightarrow> 'n token list \<Rightarrow> string \<Rightarrow> nat \<Rightarrow> string \<Rightarrow> string option
    \<Rightarrow> failure + ('n token \<times> nat)" where
  "consume h tokens fl pos ty v =
     (let tok = peek tokens pos in
      if matches tok ty v then Inr (tok, pos + 1)
      else
        (let expected = (case v of Some s \<Rightarrow> ty @ ''('' @ s @ '')'' | None \<Rightarrow> ty)
         in Inl (Thrown (QastError
                   (''Expected '' @ expected @ '' but found '' @ tok_type tok @ '' '' @
                      (case tok_value tok of JNull \<Rightarrow> [] | x \<Rightarrow> jsToString h x))
                   (FStr fl) (tok_line tok) (tok_column tok) FUndefined))))"

text \<open>\<open>match\<close>: whether the token under the cursor matches; the caller then advances.\<close>

definition matchTok :: "'n token list \<Rightarrow> nat \<Rightarrow> string \<Rightarrow> string option \<Rightarrow> bool" where
  "matchTok tokens pos ty v \<longleftrightarrow> matches (peek tokens pos) ty v"

text \<open>
  \<^verbatim>\<open>tokens[pos - 1]\<close> after the cursor has moved to \<open>pos\<close>; reading a field of it is a
  \<^verbatim>\<open>TypeError\<close> when the index is outside the array.
\<close>

definition prevToken :: "'n token list \<Rightarrow> nat \<Rightarrow> failure + 'n token" where
  "prevToken tokens pos =
     (if 0 < pos \<and> pos - 1 < length tokens then Inr (tokens ! (pos - 1)) else Inl TypeError)"

subsection \<open>Expressions\<close>

text \<open>
  An exception thrown by a call ends the caller: \<open>andThen r k\<close> continues with \<open>k\<close> on
  the result of \<open>r\<close>, or fails as \<open>r\<close> does.
\<close>

definition andThen :: "failure + 'a \<Rightarrow> ('a \<Rightarrow> failure + 'b) \<Rightarrow> failure + 'b" where
  "andThen r k = (case r of Inl f \<Rightarrow> Inl f | Inr x \<Rightarrow> k x)"

text \<open>
  Each function takes the budget \<open>n\<close> and the cursor \<open>pos\<close>, and returns the node with
  the new cursor. The budget bounds the depth of the calls that come after the cursor has
  advanced; it is the only thing the model adds to the code, and \<open>OutOfFuel\<close> the only
  result the code does not have.
\<close>

function parseExpression ::
    "'n host \<Rightarrow> 'n token list \<Rightarrow> string \<Rightarrow> nat \<Rightarrow> nat \<Rightarrow> failure + ('n expr \<times> nat)"
  and parseEquality ::
    "'n host \<Rightarrow> 'n token list \<Rightarrow> string \<Rightarrow> nat \<Rightarrow> nat \<Rightarrow> failure + ('n expr \<times> nat)"
  and equalityLoop ::
    "'n host \<Rightarrow> 'n token list \<Rightarrow> string \<Rightarrow> nat \<Rightarrow> 'n expr \<Rightarrow> nat \<Rightarrow> failure + ('n expr \<times> nat)"
  and parseComparison ::
    "'n host \<Rightarrow> 'n token list \<Rightarrow> string \<Rightarrow> nat \<Rightarrow> nat \<Rightarrow> failure + ('n expr \<times> nat)"
  and comparisonLoop ::
    "'n host \<Rightarrow> 'n token list \<Rightarrow> string \<Rightarrow> nat \<Rightarrow> 'n expr \<Rightarrow> nat \<Rightarrow> failure + ('n expr \<times> nat)"
  and parseTerm ::
    "'n host \<Rightarrow> 'n token list \<Rightarrow> string \<Rightarrow> nat \<Rightarrow> nat \<Rightarrow> failure + ('n expr \<times> nat)"
  and termLoop ::
    "'n host \<Rightarrow> 'n token list \<Rightarrow> string \<Rightarrow> nat \<Rightarrow> 'n expr \<Rightarrow> nat \<Rightarrow> failure + ('n expr \<times> nat)"
  and parseFactor ::
    "'n host \<Rightarrow> 'n token list \<Rightarrow> string \<Rightarrow> nat \<Rightarrow> nat \<Rightarrow> failure + ('n expr \<times> nat)"
  and factorLoop ::
    "'n host \<Rightarrow> 'n token list \<Rightarrow> string \<Rightarrow> nat \<Rightarrow> 'n expr \<Rightarrow> nat \<Rightarrow> failure + ('n expr \<times> nat)"
  and parseUnary ::
    "'n host \<Rightarrow> 'n token list \<Rightarrow> string \<Rightarrow> nat \<Rightarrow> nat \<Rightarrow> failure + ('n expr \<times> nat)"
  and parsePrimary ::
    "'n host \<Rightarrow> 'n token list \<Rightarrow> string \<Rightarrow> nat \<Rightarrow> nat \<Rightarrow> failure + ('n expr \<times> nat)"
where
  "parseExpression h tokens fl n pos = parseEquality h tokens fl n pos"
| "parseEquality h tokens fl n pos =
     andThen (parseComparison h tokens fl n pos)
       (\<lambda>(expr, pos'). equalityLoop h tokens fl n expr pos')"
| "equalityLoop h tokens fl n expr pos =
     (if matchTok tokens pos ''OP'' (Some ''=='') \<or> matchTok tokens pos ''OP'' (Some ''!='') then
        (case n of
           0 \<Rightarrow> Inl OutOfFuel
         | Suc m \<Rightarrow>
             andThen (prevToken tokens (pos + 1)) (\<lambda>t.
             andThen (parseComparison h tokens fl m (pos + 1)) (\<lambda>(right, pos').
               equalityLoop h tokens fl m
                 (BinaryExpression (tok_value t) expr right
                    (locFrom (AExpr expr) (Some (AExpr right)))) pos')))
      else Inr (expr, pos))"
| "parseComparison h tokens fl n pos =
     andThen (parseTerm h tokens fl n pos)
       (\<lambda>(expr, pos'). comparisonLoop h tokens fl n expr pos')"
| "comparisonLoop h tokens fl n expr pos =
     (if matchTok tokens pos ''OP'' (Some ''>'') \<or> matchTok tokens pos ''OP'' (Some ''<'')
         \<or> matchTok tokens pos ''OP'' (Some ''>='') \<or> matchTok tokens pos ''OP'' (Some ''<='') then
        (case n of
           0 \<Rightarrow> Inl OutOfFuel
         | Suc m \<Rightarrow>
             andThen (prevToken tokens (pos + 1)) (\<lambda>t.
             andThen (parseTerm h tokens fl m (pos + 1)) (\<lambda>(right, pos').
               comparisonLoop h tokens fl m
                 (BinaryExpression (tok_value t) expr right
                    (locFrom (AExpr expr) (Some (AExpr right)))) pos')))
      else Inr (expr, pos))"
| "parseTerm h tokens fl n pos =
     andThen (parseFactor h tokens fl n pos)
       (\<lambda>(expr, pos'). termLoop h tokens fl n expr pos')"
| "termLoop h tokens fl n expr pos =
     (if matchTok tokens pos ''OP'' (Some ''+'') \<or> matchTok tokens pos ''OP'' (Some ''-'') then
        (case n of
           0 \<Rightarrow> Inl OutOfFuel
         | Suc m \<Rightarrow>
             andThen (prevToken tokens (pos + 1)) (\<lambda>t.
             andThen (parseFactor h tokens fl m (pos + 1)) (\<lambda>(right, pos').
               termLoop h tokens fl m
                 (BinaryExpression (tok_value t) expr right
                    (locFrom (AExpr expr) (Some (AExpr right)))) pos')))
      else Inr (expr, pos))"
| "parseFactor h tokens fl n pos =
     andThen (parseUnary h tokens fl n pos)
       (\<lambda>(expr, pos'). factorLoop h tokens fl n expr pos')"
| "factorLoop h tokens fl n expr pos =
     (if matchTok tokens pos ''OP'' (Some ''*'') \<or> matchTok tokens pos ''OP'' (Some ''/'')
         \<or> matchTok tokens pos ''OP'' (Some ''%'') then
        (case n of
           0 \<Rightarrow> Inl OutOfFuel
         | Suc m \<Rightarrow>
             andThen (prevToken tokens (pos + 1)) (\<lambda>t.
             andThen (parseUnary h tokens fl m (pos + 1)) (\<lambda>(right, pos').
               factorLoop h tokens fl m
                 (BinaryExpression (tok_value t) expr right
                    (locFrom (AExpr expr) (Some (AExpr right)))) pos')))
      else Inr (expr, pos))"
| "parseUnary h tokens fl n pos =
     (if matchTok tokens pos ''OP'' (Some ''!'') \<or> matchTok tokens pos ''OP'' (Some ''-'') then
        (case n of
           0 \<Rightarrow> Inl OutOfFuel
         | Suc m \<Rightarrow>
             andThen (prevToken tokens (pos + 1)) (\<lambda>t.
             andThen (parseUnary h tokens fl m (pos + 1)) (\<lambda>(right, pos').
             andThen (prevToken tokens pos') (\<lambda>t'.
               Inr (UnaryExpression (tok_value t) right
                      (locFrom (AToken t') (Some (AExpr right))), pos')))))
      else parsePrimary h tokens fl n pos)"
| "parsePrimary h tokens fl n pos =
     (let tok = peek tokens pos in
      if matchTok tokens pos ''NUMBER'' None then
        Inr (NumberLiteral (tok_value tok) (locFrom (AToken tok) None), pos + 1)
      else if matchTok tokens pos ''STRING'' None then
        Inr (StringLiteral (tok_value tok) (locFrom (AToken tok) None), pos + 1)
      else if matchTok tokens pos ''IDENT'' None then
        Inr (Identifier (tok_value tok) (locFrom (AToken tok) None), pos + 1)
      else if matchTok tokens pos ''OP'' (Some ''('') then
        (case n of
           0 \<Rightarrow> Inl OutOfFuel
         | Suc m \<Rightarrow>
             andThen (parseExpression h tokens fl m (pos + 1)) (\<lambda>(expr, pos').
             andThen (consume h tokens fl pos' ''OP'' (Some '')'')) (\<lambda>(t, pos'').
               Inr (Grouping expr (locFrom (AToken tok) (Some (AExpr expr))), pos''))))
      else
        Inl (Thrown (QastError (''Unexpected token '' @ tok_type tok) (FStr fl)
                       (tok_line tok) (tok_column tok) FUndefined)))"

  by pat_completeness auto

text \<open>
  Termination: the budget decreases, or stays while the call goes down the chain from
  \<open>parseExpression\<close> to \<open>parsePrimary\<close> or enters a loop.
\<close>

termination
  apply (relation "inv_image (less_than <*lex*> less_than)
    (\<lambda>x. case x of
        Inl a \<Rightarrow> (case a of
            Inl b \<Rightarrow> (case b of
                Inl (h, ts, fl, n, pos) \<Rightarrow> (n, 10::nat)
              | Inr (h, ts, fl, n, pos) \<Rightarrow> (n, 9))
          | Inr b \<Rightarrow> (case b of
                Inl (h, ts, fl, n, e, pos) \<Rightarrow> (n, 0)
              | Inr c \<Rightarrow> (case c of
                    Inl (h, ts, fl, n, pos) \<Rightarrow> (n, 8)
                  | Inr (h, ts, fl, n, e, pos) \<Rightarrow> (n, 0))))
      | Inr a \<Rightarrow> (case a of
            Inl b \<Rightarrow> (case b of
                Inl (h, ts, fl, n, pos) \<Rightarrow> (n, 7)
              | Inr c \<Rightarrow> (case c of
                    Inl (h, ts, fl, n, e, pos) \<Rightarrow> (n, 0)
                  | Inr (h, ts, fl, n, pos) \<Rightarrow> (n, 6)))
          | Inr b \<Rightarrow> (case b of
                Inl (h, ts, fl, n, e, pos) \<Rightarrow> (n, 0)
              | Inr c \<Rightarrow> (case c of
                    Inl (h, ts, fl, n, pos) \<Rightarrow> (n, 5)
                  | Inr (h, ts, fl, n, pos) \<Rightarrow> (n, 4)))))")
   apply (intro wf_inv_image wf_lex_prod wf_less_than)
  apply simp_all
  done

declare parseExpression.simps [simp del] parseEquality.simps [simp del]
  equalityLoop.simps [simp del] parseComparison.simps [simp del]
  comparisonLoop.simps [simp del] parseTerm.simps [simp del] termLoop.simps [simp del]
  parseFactor.simps [simp del] factorLoop.simps [simp del] parseUnary.simps [simp del]
  parsePrimary.simps [simp del]

lemmas parseExpression_induct =
  parseExpression_parseEquality_equalityLoop_parseComparison_comparisonLoop_parseTerm_termLoop_parseFactor_factorLoop_parseUnary_parsePrimary.induct

subsection \<open>Statements\<close>

definition parsePrint ::
  "'n host \<Rightarrow> 'n token list \<Rightarrow> string \<Rightarrow> nat \<Rightarrow> nat \<Rightarrow> failure + ('n stmt \<times> nat)" where
  "parsePrint h tokens fl n pos =
     andThen (consume h tokens fl pos ''PRINT'' None) (\<lambda>(start, pos1).
     andThen (parseExpression h tokens fl n pos1) (\<lambda>(argument, pos2).
       Inr (PrintStatement argument (locFrom (AToken start) (Some (AExpr argument))), pos2)))"

definition parseSet ::
  "'n host \<Rightarrow> 'n token list \<Rightarrow> string \<Rightarrow> nat \<Rightarrow> nat \<Rightarrow> failure + ('n stmt \<times> nat)" where
  "parseSet h tokens fl n pos =
     andThen (consume h tokens fl pos ''SET'' None) (\<lambda>(start, pos1).
     andThen (consume h tokens fl pos1 ''IDENT'' None) (\<lambda>(ident, pos2).
     andThen (consume h tokens fl pos2 ''OP'' (Some ''='')) (\<lambda>(eq, pos3).
     andThen (parseExpression h tokens fl n pos3) (\<lambda>(v, pos4).
       Inr (SetStatement (tok_value ident) v
              (locFrom (AToken start) (Some (AExpr v))), pos4)))))"

definition parseInput ::
  "'n host \<Rightarrow> 'n token list \<Rightarrow> string \<Rightarrow> nat \<Rightarrow> nat \<Rightarrow> failure + ('n stmt \<times> nat)" where
  "parseInput h tokens fl n pos =
     andThen (consume h tokens fl pos ''INPUT'' None) (\<lambda>(start, pos1).
     andThen (consume h tokens fl pos1 ''IDENT'' None) (\<lambda>(ident, pos2).
       if matchTok tokens pos2 ''STRING'' None then
         andThen (prevToken tokens (pos2 + 1)) (\<lambda>t.
           Inr (InputStatement (tok_value ident) (Some (tok_value t))
                  (locFrom (AToken start) (Some (AToken ident))), pos2 + 1))
       else
         Inr (InputStatement (tok_value ident) None
                (locFrom (AToken start) (Some (AToken ident))), pos2)))"

definition parseIf ::
  "'n host \<Rightarrow> 'n token list \<Rightarrow> string \<Rightarrow> nat \<Rightarrow> nat \<Rightarrow> failure + ('n stmt \<times> nat)" where
  "parseIf h tokens fl n pos =
     andThen (consume h tokens fl pos ''IF'' None) (\<lambda>(start, pos1).
     andThen (parseExpression h tokens fl n pos1) (\<lambda>(firstTestExpr, pos2).
     andThen (consume h tokens fl pos2 ''END'' None) (\<lambda>(e, pos3).
       Inr (IfStatement [(firstTestExpr, [])] None
              (locFrom (AToken start) (Some (AExpr firstTestExpr))), pos3))))"

definition parseLoop ::
  "'n host \<Rightarrow> 'n token list \<Rightarrow> string \<Rightarrow> nat \<Rightarrow> nat \<Rightarrow> failure + ('n stmt \<times> nat)" where
  "parseLoop h tokens fl n pos =
     andThen (consume h tokens fl pos ''LOOP'' None) (\<lambda>(start, pos1).
     andThen (parseExpression h tokens fl n pos1) (\<lambda>(countExpr, pos2).
     andThen (consume h tokens fl pos2 ''END'' None) (\<lambda>(e, pos3).
       Inr (LoopStatement countExpr []
              (locFrom (AToken start) (Some (AExpr countExpr))), pos3))))"

definition parseWhile ::
  "'n host \<Rightarrow> 'n token list \<Rightarrow> string \<Rightarrow> nat \<Rightarrow> nat \<Rightarrow> failure + ('n stmt \<times> nat)" where
  "parseWhile h tokens fl n pos =
     andThen (consume h tokens fl pos ''WHILE'' None) (\<lambda>(start, pos1).
     andThen (parseExpression h tokens fl n pos1) (\<lambda>(test, pos2).
     andThen (consume h tokens fl pos2 ''END'' None) (\<lambda>(e, pos3).
       Inr (WhileStatement test []
              (locFrom (AToken start) (Some (AExpr test))), pos3))))"

text \<open>The loop of \<open>parseFn\<close> that collects the parameters.\<close>

fun paramsLoop ::
  "'n token list \<Rightarrow> nat \<Rightarrow> nat \<Rightarrow> 'n jsval list \<Rightarrow> failure + ('n jsval list \<times> nat)" where
  "paramsLoop tokens n pos params =
     (if matchTok tokens pos ''IDENT'' None then
        (case n of
           0 \<Rightarrow> Inl OutOfFuel
         | Suc m \<Rightarrow>
             andThen (prevToken tokens (pos + 1)) (\<lambda>t.
               paramsLoop tokens m (pos + 1) (params @ [tok_value t])))
      else Inr (params, pos))"

declare paramsLoop.simps [simp del]

definition parseFn ::
  "'n host \<Rightarrow> 'n token list \<Rightarrow> string \<Rightarrow> nat \<Rightarrow> nat \<Rightarrow> failure + ('n stmt \<times> nat)" where
  "parseFn h tokens fl n pos =
     andThen (consume h tokens fl pos ''FN'' None) (\<lambda>(start, pos1).
     andThen (consume h tokens fl pos1 ''IDENT'' None) (\<lambda>(ident, pos2).
     andThen (paramsLoop tokens n pos2 []) (\<lambda>(params, pos3).
     andThen (consume h tokens fl pos3 ''END'' None) (\<lambda>(e, pos4).
       Inr (FunctionDef (tok_value ident) params []
              (locFrom (AToken start) (Some (AToken ident))), pos4)))))"

definition parseReturn ::
  "'n host \<Rightarrow> 'n token list \<Rightarrow> string \<Rightarrow> nat \<Rightarrow> nat \<Rightarrow> failure + ('n stmt \<times> nat)" where
  "parseReturn h tokens fl n pos =
     andThen (consume h tokens fl pos ''RETURN'' None) (\<lambda>(start, pos1).
       if tok_type (peek tokens pos1) \<noteq> ''EOF'' then
         andThen (parseExpression h tokens fl n pos1) (\<lambda>(argument, pos2).
           Inr (ReturnStatement (Some argument)
                  (locFrom (AToken start) (Some (AExpr argument))), pos2))
       else
         Inr (ReturnStatement None (locFrom (AToken start) (Some (AToken start))), pos1))"

definition parseStatement ::
  "'n host \<Rightarrow> 'n token list \<Rightarrow> string \<Rightarrow> nat \<Rightarrow> nat \<Rightarrow> failure + ('n stmt \<times> nat)" where
  "parseStatement h tokens fl n pos =
     (let tok = peek tokens pos in
      if tok_type tok = ''PRINT'' then parsePrint h tokens fl n pos
      else if tok_type tok = ''SET'' then parseSet h tokens fl n pos
      else if tok_type tok = ''INPUT'' then parseInput h tokens fl n pos
      else if tok_type tok = ''IF'' then parseIf h tokens fl n pos
      else if tok_type tok = ''LOOP'' then parseLoop h tokens fl n pos
      else if tok_type tok = ''WHILE'' then parseWhile h tokens fl n pos
      else if tok_type tok = ''FN'' then parseFn h tokens fl n pos
      else if tok_type tok = ''RETURN'' then parseReturn h tokens fl n pos
      else
        andThen (parseExpression h tokens fl n pos) (\<lambda>(expr, pos').
          Inr (ExprStatement expr (locFrom (AExpr expr) None), pos')))"

text \<open>The loop of \<open>parse\<close> over the statements.\<close>

fun parseBody ::
  "'n host \<Rightarrow> 'n token list \<Rightarrow> string \<Rightarrow> nat \<Rightarrow> nat \<Rightarrow> 'n stmt list \<Rightarrow> failure + 'n program" where
  "parseBody h tokens fl n pos stmts =
     (if tok_type (peek tokens pos) \<noteq> ''EOF'' then
        (case n of
           0 \<Rightarrow> Inl OutOfFuel
         | Suc m \<Rightarrow>
             andThen (parseStatement h tokens fl (Suc m) pos) (\<lambda>(s, pos').
               parseBody h tokens fl m pos' (stmts @ [s])))
      else Inr (Program stmts))"

declare parseBody.simps [simp del]

text \<open>
  \<open>parse\<close> with the budget \<open>n\<close>. On an empty array \<open>peek\<close> returns \<^verbatim>\<open>undefined\<close> and
  reading its \<open>type\<close> is a \<^verbatim>\<open>TypeError\<close>.
\<close>

definition parse :: "'n host \<Rightarrow> nat \<Rightarrow> 'n token list \<Rightarrow> string \<Rightarrow> failure + 'n program" where
  "parse h n tokens fl = (if tokens = [] then Inl TypeError else parseBody h tokens fl n 0 [])"

section \<open>The evaluator (runtime.js)\<close>

subsection \<open>Conversions and operators of the host\<close>

fun toPrimitive :: "'n host \<Rightarrow> 'n jsval \<Rightarrow> 'n jsval" where
  "toPrimitive h JFun = JStr (printSource h)"
| "toPrimitive h v = v"

text \<open>
  The conversion to a number: \<^verbatim>\<open>null\<close> and \<^verbatim>\<open>false\<close> become the number that
  \<^verbatim>\<open>Number('0')\<close> is, \<^verbatim>\<open>true\<close> the number that \<^verbatim>\<open>Number('1')\<close> is, and a string
  is read by \<open>Number\<close>.
\<close>

fun toNumber :: "'n host \<Rightarrow> 'n jsval \<Rightarrow> 'n" where
  "toNumber h JNull = Number h ''0''"
| "toNumber h (JBool b) = Number h (if b then ''1'' else ''0'')"
| "toNumber h (JNum n) = n"
| "toNumber h (JStr s) = Number h s"
| "toNumber h JFun = Number h (printSource h)"

fun toBoolean :: "'n host \<Rightarrow> 'n jsval \<Rightarrow> bool" where
  "toBoolean h JNull = False"
| "toBoolean h (JBool b) = b"
| "toBoolean h (JNum n) = numTruthy h n"
| "toBoolean h (JStr s) = (s \<noteq> [])"
| "toBoolean h JFun = True"

text \<open>The order of two strings: by the code units, the shorter first.\<close>

fun strLess :: "string \<Rightarrow> string \<Rightarrow> bool" where
  "strLess [] [] = False"
| "strLess [] (y # ys) = True"
| "strLess (x # xs) [] = False"
| "strLess (x # xs) (y # ys) =
     (if x = y then strLess xs ys else (of_char x :: nat) < of_char y)"

text \<open>
  \<open>jsLess h l r\<close> is the comparison behind \<^verbatim>\<open>l < r\<close>: two strings are compared as
  strings; otherwise both operands are converted to numbers. \<open>None\<close> is the undefined
  result.
\<close>

definition jsLess :: "'n host \<Rightarrow> 'n jsval \<Rightarrow> 'n jsval \<Rightarrow> bool option" where
  "jsLess h l r =
     (case (toPrimitive h l, toPrimitive h r) of
        (JStr a, JStr b) \<Rightarrow> Some (strLess a b)
      | (lp, rp) \<Rightarrow> numLess h (toNumber h lp) (toNumber h rp))"

text \<open>\<^verbatim>\<open>l === r\<close>: values of different types are never equal.\<close>

fun strictEquals :: "'n host \<Rightarrow> 'n jsval \<Rightarrow> 'n jsval \<Rightarrow> bool" where
  "strictEquals h JNull JNull = True"
| "strictEquals h (JBool a) (JBool b) = (a = b)"
| "strictEquals h (JNum a) (JNum b) = numEq h a b"
| "strictEquals h (JStr a) (JStr b) = (a = b)"
| "strictEquals h JFun JFun = True"
| "strictEquals h l r = False"

definition isString :: "'n jsval \<Rightarrow> bool" where
  "isString v = (case v of JStr s \<Rightarrow> True | _ \<Rightarrow> False)"

text \<open>\<^verbatim>\<open>l + r\<close>: concatenation when an operand is a string, addition otherwise.\<close>

definition jsPlus :: "'n host \<Rightarrow> 'n jsval \<Rightarrow> 'n jsval \<Rightarrow> 'n jsval" where
  "jsPlus h l r =
     (let lp = toPrimitive h l; rp = toPrimitive h r in
      if isString lp \<or> isString rp then JStr (jsToString h lp @ jsToString h rp)
      else JNum (numAdd h (toNumber h lp) (toNumber h rp)))"

subsection \<open>The runtime\<close>

text \<open>
  A frame maps a property key to a value. The runtime has the fields \<open>envStack\<close> and
  \<open>trace\<close> of the code; \<open>inputLines\<close> are the lines that the terminal will supply and
  \<open>outLog\<close> is what has been written: the value passed to \<^verbatim>\<open>console.log\<close>, or the text
  of a question.
\<close>

type_synonym 'n frame = "string \<rightharpoonup> 'n jsval"

datatype 'n event = ConsoleLog "'n jsval" | Question string

record 'n runtime =
  envStack :: "'n frame list"
  trace :: bool
  inputLines :: "string list"
  outLog :: "'n event list"

definition createRuntime :: "bool \<Rightarrow> string list \<Rightarrow> 'n runtime" where
  "createRuntime tr ls =
     \<lparr>envStack = [Map.empty(''print'' \<mapsto> JFun)], trace = tr, inputLines = ls, outLog = []\<rparr>"

definition setVar :: "'n host \<Rightarrow> 'n runtime \<Rightarrow> 'n jsval \<Rightarrow> 'n jsval \<Rightarrow> failure + 'n runtime" where
  "setVar h rt name v =
     (if envStack rt = [] then Inl TypeError
      else Inr (rt\<lparr>envStack :=
                    (envStack rt)[length (envStack rt) - 1 :=
                       (last (envStack rt))(jsToString h name \<mapsto> v)]\<rparr>))"

text \<open>The loop of \<open>getVar\<close>: \<open>lookupFrom fs k name\<close> reads the frames \<open>k - 1\<close> down to \<open>0\<close>.\<close>

fun lookupFrom :: "'n frame list \<Rightarrow> nat \<Rightarrow> string \<Rightarrow> 'n jsval option" where
  "lookupFrom fs 0 name = None"
| "lookupFrom fs (Suc i) name =
     (case (fs ! i) name of
        Some v \<Rightarrow> Some v
      | None \<Rightarrow> lookupFrom fs i name)"

text \<open>
  The \<open>loc\<close> that the parser builds has no \<open>file\<close>, so the error has none. (Every node
  of the tree has a \<open>loc\<close>; the default that \<open>evalExpression\<close> passes for a node without
  one is never used.)
\<close>

definition getVar :: "'n host \<Rightarrow> 'n runtime \<Rightarrow> 'n jsval \<Rightarrow> loc \<Rightarrow> failure + 'n jsval" where
  "getVar h rt name l =
     (case lookupFrom (envStack rt) (length (envStack rt)) (jsToString h name) of
        Some v \<Rightarrow> Inr v
      | None \<Rightarrow>
          Inl (Thrown (QastError
                 (''Undefined variable '' @ [CHR 0x27] @ jsToString h name @ [CHR 0x27])
                 FUndefined (p_line (l_start l)) (p_column (l_start l)) FUndefined)))"

text \<open>
  \<open>input\<close>: the question is written and the next line is the answer; without a line the
  promise never resolves.
\<close>

definition input :: "'n runtime \<Rightarrow> string \<Rightarrow> failure + (string \<times> 'n runtime)" where
  "input rt prompt =
     (case inputLines rt of
        [] \<Rightarrow> Inl AwaitingInput
      | answer # ls \<Rightarrow>
          Inr (answer, rt\<lparr>inputLines := ls, outLog := outLog rt @ [Question prompt]\<rparr>))"

subsection \<open>Expressions\<close>

definition evalBinary :: "'n host \<Rightarrow> 'n jsval \<Rightarrow> 'n jsval \<Rightarrow> 'n jsval \<Rightarrow> failure + 'n jsval" where
  "evalBinary h opr left right =
     (if opr = JStr ''+'' then Inr (jsPlus h left right)
      else if opr = JStr ''-'' then Inr (JNum (numSub h (toNumber h left) (toNumber h right)))
      else if opr = JStr ''*'' then Inr (JNum (numMul h (toNumber h left) (toNumber h right)))
      else if opr = JStr ''/'' then Inr (JNum (numDiv h (toNumber h left) (toNumber h right)))
      else if opr = JStr ''%'' then Inr (JNum (numRem h (toNumber h left) (toNumber h right)))
      else if opr = JStr ''=='' then Inr (JBool (strictEquals h left right))
      else if opr = JStr ''!='' then Inr (JBool (\<not> strictEquals h left right))
      else if opr = JStr ''>'' then Inr (JBool (jsLess h right left = Some True))
      else if opr = JStr ''<'' then Inr (JBool (jsLess h left right = Some True))
      else if opr = JStr ''>='' then Inr (JBool (jsLess h left right = Some False))
      else if opr = JStr ''<='' then Inr (JBool (jsLess h right left = Some False))
      else Inl (PlainError (''Unknown operator '' @ jsToString h opr)))"

fun evalExpression :: "'n host \<Rightarrow> 'n runtime \<Rightarrow> 'n expr \<Rightarrow> failure + 'n jsval" where
  "evalExpression h rt (NumberLiteral v l) = Inr v"
| "evalExpression h rt (StringLiteral v l) = Inr v"
| "evalExpression h rt (Identifier name l) = getVar h rt name l"
| "evalExpression h rt (UnaryExpression opr argument l) =
     andThen (evalExpression h rt argument) (\<lambda>v.
       if opr = JStr ''-'' then Inr (JNum (numNeg h (toNumber h v)))
       else if opr = JStr ''!'' then Inr (JBool (\<not> toBoolean h v))
       else Inl (PlainError (''Unknown unary operator '' @ jsToString h opr)))"
| "evalExpression h rt (BinaryExpression opr lhs rhs l) =
     andThen (evalExpression h rt lhs) (\<lambda>left.
     andThen (evalExpression h rt rhs) (\<lambda>right.
       evalBinary h opr left right))"
| "evalExpression h rt (Grouping e l) = evalExpression h rt e"

subsection \<open>Statements and programs\<close>

fun typeName :: "'n stmt \<Rightarrow> string" where
  "typeName (PrintStatement a l) = ''PrintStatement''"
| "typeName (SetStatement x v l) = ''SetStatement''"
| "typeName (InputStatement x p l) = ''InputStatement''"
| "typeName (ExprStatement e l) = ''ExprStatement''"
| "typeName (ReturnStatement a l) = ''ReturnStatement''"
| "typeName (IfStatement ts a l) = ''IfStatement''"
| "typeName (LoopStatement c b l) = ''LoopStatement''"
| "typeName (WhileStatement t b l) = ''WhileStatement''"
| "typeName (FunctionDef x ps b l) = ''FunctionDef''"

definition consoleLog :: "'n runtime \<Rightarrow> 'n jsval \<Rightarrow> 'n runtime" where
  "consoleLog rt v = rt\<lparr>outLog := outLog rt @ [ConsoleLog v]\<rparr>"

text \<open>
  \<^verbatim>\<open>runtime.envStack[0].print(v)\<close>: the property \<open>print\<close> of the frame at index 0 is
  called. The built-in function passes its argument to \<^verbatim>\<open>console.log\<close>; calling
  anything else is a \<^verbatim>\<open>TypeError\<close>.
\<close>

definition callGlobalPrint :: "'n runtime \<Rightarrow> 'n jsval \<Rightarrow> failure + 'n runtime" where
  "callGlobalPrint rt v =
     (if envStack rt = [] then Inl TypeError
      else (case (envStack rt ! 0) ''print'' of
              Some JFun \<Rightarrow> Inr (consoleLog rt v)
            | _ \<Rightarrow> Inl TypeError))"

text \<open>
  The question of an \<open>InputStatement\<close> is \<^verbatim>\<open>node.prompt || ''\<close>; a question that is not a
  string is refused by the host.
\<close>

definition promptText :: "'n host \<Rightarrow> 'n jsval option \<Rightarrow> failure + string" where
  "promptText h p =
     (case p of
        None \<Rightarrow> Inr []
      | Some v \<Rightarrow>
          if \<not> toBoolean h v then Inr []
          else (case v of JStr s \<Rightarrow> Inr s | _ \<Rightarrow> Inl TypeError))"

text \<open>
  A failure ends the run and carries no runtime: what was written before it is not part
  of the result.

  \<open>traceStatement\<close> is the first step of \<open>evalStatement\<close>: the line of the trace.
  \<open>evalStatement\<close> returns the runtime after the statement, with \<open>Some v\<close> when the
  statement returns the object \<^verbatim>\<open>{ type: 'return', value: v }\<close> and \<open>None\<close> otherwise.
\<close>

definition traceStatement :: "'n stmt \<Rightarrow> 'n runtime \<Rightarrow> 'n runtime" where
  "traceStatement node rt =
     (if trace rt then consoleLog rt (JStr (''[trace] '' @ typeName node)) else rt)"

definition evalStatement ::
  "'n host \<Rightarrow> 'n stmt \<Rightarrow> 'n runtime \<Rightarrow> failure + ('n runtime \<times> 'n jsval option)" where
  "evalStatement h node rt0 =
     (let rt = traceStatement node rt0
      in case node of
           PrintStatement argument l \<Rightarrow>
             andThen (evalExpression h rt argument) (\<lambda>v.
             andThen (callGlobalPrint rt v) (\<lambda>rt'. Inr (rt', None)))
         | SetStatement name e l \<Rightarrow>
             andThen (evalExpression h rt e) (\<lambda>v.
             andThen (setVar h rt name v) (\<lambda>rt'. Inr (rt', None)))
         | InputStatement name p l \<Rightarrow>
             andThen (promptText h p) (\<lambda>q.
             andThen (input rt q) (\<lambda>(v, rt').
             andThen (setVar h rt' name (JStr v)) (\<lambda>rt''. Inr (rt'', None))))
         | ExprStatement e l \<Rightarrow>
             andThen (evalExpression h rt e) (\<lambda>v. Inr (rt, None))
         | ReturnStatement argument l \<Rightarrow>
             (case argument of
                Some a \<Rightarrow> andThen (evalExpression h rt a) (\<lambda>v. Inr (rt, Some v))
              | None \<Rightarrow> Inr (rt, Some JNull))
         | _ \<Rightarrow> Inr (rt, None))"

text \<open>
  The loop of \<open>evalProgram\<close>. The result of the program is \<open>Some v\<close> when a statement
  returned \<open>v\<close>, and \<open>None\<close> (\<^verbatim>\<open>undefined\<close>) when the loop ends.
\<close>

fun evalBody ::
  "'n host \<Rightarrow> 'n stmt list \<Rightarrow> 'n runtime \<Rightarrow> failure + ('n runtime \<times> 'n jsval option)" where
  "evalBody h [] rt = Inr (rt, None)"
| "evalBody h (s # ss) rt =
     andThen (evalStatement h s rt) (\<lambda>(rt', res).
       case res of
         Some v \<Rightarrow> Inr (rt', Some v)
       | None \<Rightarrow> evalBody h ss rt')"

definition evalProgram ::
  "'n host \<Rightarrow> 'n program \<Rightarrow> 'n runtime \<Rightarrow> failure + ('n runtime \<times> 'n jsval option)" where
  "evalProgram h program rt = evalBody h (body program) rt"

subsection \<open>The command line (qast.js)\<close>

text \<open>
  The body of \<open>main\<close> for a file without the flag \<^verbatim>\<open>--check\<close>: the source is tokenized
  and parsed, a runtime is created and the program is evaluated. \<open>tr\<close> is the flag
  \<^verbatim>\<open>--trace\<close>, \<open>ls\<close> the lines the terminal will supply and \<open>n\<close> the budget of \<open>parse\<close>.
\<close>

definition runSource ::
  "'n host \<Rightarrow> nat \<Rightarrow> bool \<Rightarrow> string list \<Rightarrow> string \<Rightarrow> string
    \<Rightarrow> failure + ('n runtime \<times> 'n jsval option)" where
  "runSource h n tr ls source filePath =
     (case lex h source filePath of
        Inl e \<Rightarrow> Inl (Thrown e)
      | Inr tokens \<Rightarrow>
          andThen (parse h n tokens filePath) (\<lambda>ast.
            evalProgram h ast (createRuntime tr ls)))"

text \<open>What a run shows: the output and the result of the program.\<close>

definition shown ::
  "failure + ('n runtime \<times> 'n jsval option) \<Rightarrow> failure + ('n event list \<times> 'n jsval option)" where
  "shown r = (case r of Inl f \<Rightarrow> Inl f | Inr (rt, res) \<Rightarrow> Inr (outLog rt, res))"

section \<open>A host for closed examples\<close>

text \<open>
  The theorems below hold for every host. To evaluate a closed example a host is needed;
  \<open>int_host\<close> is JavaScript's arithmetic restricted to the integers, with \<open>None\<close> for NaN.
  It agrees with JavaScript on the strings of digits, and on integers of a magnitude
  below \<open>2^53\<close> for the sign, the sum, the difference, the product, the remainder, the
  order, the equality and the conversion to a string. It has no fractions, no infinities
  and no negative zero: a string in another notation is read as NaN, and so is a quotient
  that is not an integer. The examples stay inside the part where it is exact.
\<close>

fun digitsValue :: "string \<Rightarrow> int \<Rightarrow> int option" where
  "digitsValue [] acc = Some acc"
| "digitsValue (c # cs) acc =
     (if isDigit c then digitsValue cs (10 * acc + (int (of_char c) - 48)) else None)"

definition intNumber :: "string \<Rightarrow> int option" where
  "intNumber s = digitsValue (trim s) 0"

fun showNat :: "nat \<Rightarrow> string" where
  "showNat n =
     (if n < 10 then [char_of (48 + n)] else showNat (n div 10) @ [char_of (48 + n mod 10)])"

declare showNat.simps [simp del]

definition intToString :: "int option \<Rightarrow> string" where
  "intToString x =
     (case x of
        None \<Rightarrow> ''NaN''
      | Some i \<Rightarrow> if i < 0 then ''-'' @ showNat (nat (- i)) else showNat (nat i))"

definition lift2 :: "(int \<Rightarrow> int \<Rightarrow> int) \<Rightarrow> int option \<Rightarrow> int option \<Rightarrow> int option" where
  "lift2 f x y = (case (x, y) of (Some a, Some b) \<Rightarrow> Some (f a b) | _ \<Rightarrow> None)"

definition int_host :: "int option host" where
  "int_host =
     \<lparr>Number = intNumber,
      numToString = intToString,
      numNeg = map_option uminus,
      numAdd = lift2 (+),
      numSub = lift2 (-),
      numMul = lift2 (*),
      numDiv = (\<lambda>x y. case (x, y) of
                  (Some a, Some b) \<Rightarrow> if b \<noteq> 0 \<and> b dvd a then Some (a div b) else None
                | _ \<Rightarrow> None),
      numRem = (\<lambda>x y. case (x, y) of
                  (Some a, Some b) \<Rightarrow> if b = 0 then None else Some (sgn a * (\<bar>a\<bar> mod \<bar>b\<bar>))
                | _ \<Rightarrow> None),
      numLess = (\<lambda>x y. case (x, y) of (Some a, Some b) \<Rightarrow> Some (a < b) | _ \<Rightarrow> None),
      numEq = (\<lambda>x y. case (x, y) of (Some a, Some b) \<Rightarrow> a = b | _ \<Rightarrow> False),
      numTruthy = (\<lambda>x. case x of Some a \<Rightarrow> a \<noteq> 0 | None \<Rightarrow> False),
      printSource = ''(...args) => {'' @ [LF] @ ''    console.log(...args);'' @ [LF] @ ''  }''\<rparr>"

section \<open>Predicates and examples for the properties\<close>

subsection \<open>Errors\<close>

text \<open>
  The shape of an object made by the constructor \<^verbatim>\<open>QastError\<close>: its eight own
  properties, in the order of their creation, of which \<open>stack\<close> is the stack trace,
  \<open>name\<close> and \<open>isQastError\<close> are fixed, \<open>message\<close> is a string, \<open>line\<close> and \<open>column\<close> are
  numbers, and \<open>file\<close> and \<open>hint\<close> are strings or undefined.
\<close>

definition isText :: "field \<Rightarrow> bool" where
  "isText v = (case v of FStr s \<Rightarrow> True | _ \<Rightarrow> False)"

definition isCount :: "field \<Rightarrow> bool" where
  "isCount v = (case v of FNat n \<Rightarrow> True | _ \<Rightarrow> False)"

definition isTextOrUndefined :: "field \<Rightarrow> bool" where
  "isTextOrUndefined v = (case v of FStr s \<Rightarrow> True | FUndefined \<Rightarrow> True | _ \<Rightarrow> False)"

definition isQastErrorObject :: "qerror \<Rightarrow> bool" where
  "isQastErrorObject e \<longleftrightarrow>
     map fst e =
       [''stack'', ''message'', ''name'', ''isQastError'', ''file'', ''line'', ''column'', ''hint'']
     \<and> getField e ''stack'' = FTrace
     \<and> isText (getField e ''message'')
     \<and> getField e ''name'' = FStr ''QastError''
     \<and> getField e ''isQastError'' = FBool True
     \<and> isTextOrUndefined (getField e ''file'')
     \<and> isCount (getField e ''line'')
     \<and> isCount (getField e ''column'')
     \<and> isTextOrUndefined (getField e ''hint'')"

text \<open>
  What the specification asks a structured error to carry, the kind and the file
  apart: a message, a line, a column, and a hint that may be missing.
\<close>

definition carriesPosition :: "qerror \<Rightarrow> bool" where
  "carriesPosition e \<longleftrightarrow>
     isText (getField e ''message'')
     \<and> isCount (getField e ''line'')
     \<and> isCount (getField e ''column'')
     \<and> isTextOrUndefined (getField e ''hint'')"

text \<open>An object made by \<^verbatim>\<open>QastError\<close> whose file is the string \<open>fl\<close>.\<close>

definition fileError :: "string \<Rightarrow> qerror \<Rightarrow> bool" where
  "fileError fl e \<longleftrightarrow> isQastErrorObject e \<and> getField e ''file'' = FStr fl"

text \<open>A result is in order, for a class \<open>P\<close> of errors, when the error it throws, if any, is in \<open>P\<close>.\<close>

definition thrownOk :: "(qerror \<Rightarrow> bool) \<Rightarrow> failure + 'a \<Rightarrow> bool" where
  "thrownOk P r = (case r of Inl (Thrown e) \<Rightarrow> P e | _ \<Rightarrow> True)"

subsection \<open>Token sequences\<close>

text \<open>No token of the list has the type \<open>EOF\<close>.\<close>

definition noEOF :: "'n token list \<Rightarrow> bool" where
  "noEOF ts \<longleftrightarrow> list_all (\<lambda>t. tok_type t \<noteq> ''EOF'') ts"

text \<open>
  An error of the file \<open>fl\<close> without a hint, as the tokenizer throws it after the
  header; the header error, at line \<open>k\<close>; and the first line, with its number, that is
  neither empty nor a comment once trimmed (\<open>i\<close> is the index of the first line of the
  list).
\<close>

definition plainError :: "string \<Rightarrow> qerror \<Rightarrow> bool" where
  "plainError fl e \<longleftrightarrow> fileError fl e \<and> getField e ''hint'' = FUndefined"

definition headerError :: "string \<Rightarrow> nat \<Rightarrow> qerror" where
  "headerError fl k =
     QastError ''Missing QasT header (new qas).'' (FStr fl) k 1
       (FStr ''First non-empty line must be: new qas'')"

fun firstEffective :: "string list \<Rightarrow> nat \<Rightarrow> (nat \<times> string) option" where
  "firstEffective [] i = None"
| "firstEffective (raw # rest) i =
     (if trim raw = [] \<or> startsWith (trim raw) ''#'' then firstEffective rest (i + 1)
      else Some (i + 1, trim raw))"

text \<open>
  A result of the tokenizer is in order, for a class \<open>P\<close> of errors, when its error is
  in \<open>P\<close> and its tokens include no \<open>EOF\<close> token, the tokens it started from having none.
\<close>

definition lexOk :: "(qerror \<Rightarrow> bool) \<Rightarrow> 'n token list \<Rightarrow> qerror + 'n token list \<Rightarrow> bool" where
  "lexOk P tokens r =
     (case r of
        Inl e \<Rightarrow> P e
      | Inr ts \<Rightarrow> noEOF tokens \<longrightarrow> noEOF ts)"

text \<open>
  A token sequence, as the tokenizer builds it: the last token is the \<open>EOF\<close> token and no
  token before it is one. A token is \<open>logicalOp\<close> when it is the operator \<^verbatim>\<open>&&\<close> or the
  operator \<^verbatim>\<open>||\<close>.
\<close>

definition wfTokens :: "'n token list \<Rightarrow> bool" where
  "wfTokens ts \<longleftrightarrow> ts \<noteq> [] \<and> tok_type (last ts) = ''EOF'' \<and> noEOF (butlast ts)"

definition logicalOp :: "'n token \<Rightarrow> bool" where
  "logicalOp t \<longleftrightarrow> tok_type t = ''OP'' \<and> (tok_value t = JStr ''&&'' \<or> tok_value t = JStr ''||'')"

text \<open>
  The cursor \<open>p\<close> is in order when it is inside the sequence and no token before it is a
  logical operator; a result is in order, for the bound \<open>q\<close>, when it is a thrown error
  or a node with a cursor in order that is at least \<open>q\<close>.
\<close>

definition cursorOk :: "'n token list \<Rightarrow> nat \<Rightarrow> bool" where
  "cursorOk ts p \<longleftrightarrow> p < length ts \<and> list_all (\<lambda>t. \<not> logicalOp t) (take p ts)"

definition resOk :: "'n token list \<Rightarrow> nat \<Rightarrow> failure + ('a \<times> nat) \<Rightarrow> bool" where
  "resOk ts q r =
     (case r of
        Inr (x, p) \<Rightarrow> q \<le> p \<and> cursorOk ts p
      | Inl (Thrown e) \<Rightarrow> True
      | Inl _ \<Rightarrow> False)"

text \<open>
  A token that \<open>match\<close> or \<open>consume\<close> accepts is never a logical operator: every call
  names a type other than \<open>OP\<close>, or the type \<open>OP\<close> with one value that is neither \<^verbatim>\<open>&&\<close>
  nor \<^verbatim>\<open>||\<close>.
\<close>

definition accepts :: "string \<Rightarrow> string option \<Rightarrow> bool" where
  "accepts ty v \<longleftrightarrow>
     ty \<noteq> ''EOF'' \<and> (ty = ''OP'' \<longrightarrow> v \<noteq> None \<and> v \<noteq> Some ''&&'' \<and> v \<noteq> Some ''||'')"

text \<open>
  The loop over the statements ends with a program only at the \<open>EOF\<close> token, with no
  logical operator before it.
\<close>

definition bodyOk :: "'n token list \<Rightarrow> failure + 'n program \<Rightarrow> bool" where
  "bodyOk ts r =
     (case r of
        Inr p \<Rightarrow> list_all (\<lambda>t. \<not> logicalOp t) ts
      | Inl (Thrown e) \<Rightarrow> True
      | Inl _ \<Rightarrow> False)"

subsection \<open>Examples\<close>

text \<open>The \<open>loc\<close> from line \<open>l1\<close>, column \<open>c1\<close> to line \<open>l2\<close>, column \<open>c2\<close>.\<close>

definition span :: "nat \<Rightarrow> nat \<Rightarrow> nat \<Rightarrow> nat \<Rightarrow> loc" where
  "span l1 c1 l2 c2 =
     \<lparr>l_start = \<lparr>p_line = l1, p_column = c1\<rparr>, l_end = \<lparr>p_line = l2, p_column = c2\<rparr>\<rparr>"

text \<open>
  A stack of two frames that both bind \<open>x\<close> and \<open>print\<close>, a runtime on it, and the
  \<open>loc\<close> of a token at line 3, column 7.
\<close>

definition stack2 :: "int option frame list" where
  "stack2 = [Map.empty(''print'' \<mapsto> JFun, ''x'' \<mapsto> JNum (Some 1)),
             Map.empty(''x'' \<mapsto> JNum (Some 2), ''print'' \<mapsto> JStr ''p'')]"

definition runtime2 :: "int option runtime" where
  "runtime2 = \<lparr>envStack = stack2, trace = False, inputLines = [], outLog = []\<rparr>"

definition loc37 :: loc where
  "loc37 = \<lparr>l_start = \<lparr>p_line = 3, p_column = 7\<rparr>, l_end = \<lparr>p_line = 3, p_column = 7\<rparr>\<rparr>"




text \<open>The tokens of \<^verbatim>\<open>new qas\<close>, \<^verbatim>\<open>q.print 1 && 2\<close>.\<close>

definition tokensAnd :: "int option token list" where
  "tokensAnd =
     [mkToken ''PRINT'' (JStr ''print'') 2 1 ''and.qast'',
      mkToken ''NUMBER'' (JNum (Some 1)) 2 7 ''and.qast'',
      mkToken ''OP'' (JStr ''&&'') 2 9 ''and.qast'',
      mkToken ''NUMBER'' (JNum (Some 2)) 2 12 ''and.qast'',
      mkToken ''EOF'' JNull 2 1 ''and.qast'']"

section \<open>Properties of the evaluator\<close>

lemma andThen_Inr [simp]: "andThen (Inr x) k = k x"
  by (simp add: andThen_def)

lemma andThen_Inl [simp]: "andThen (Inl f) k = Inl f"
  by (simp add: andThen_def)


lemma envStack_consoleLog [simp]: "envStack (consoleLog rt v) = envStack rt"
  by (simp add: consoleLog_def)

lemma envStack_traceStatement [simp]: "envStack (traceStatement node rt) = envStack rt"
  by (simp add: traceStatement_def)

lemma getVar_envStack:
  "envStack rt1 = envStack rt2 \<Longrightarrow> getVar h rt1 name l = getVar h rt2 name l"
  by (simp add: getVar_def)

lemma evalExpression_envStack:
  "envStack rt1 = envStack rt2 \<Longrightarrow> evalExpression h rt1 e = evalExpression h rt2 e"
  by (induction e) (simp_all add: getVar_def)

lemma evalExpression_traceStatement [simp]:
  "evalExpression h (traceStatement node rt) e = evalExpression h rt e"
  by (rule evalExpression_envStack) simp

text \<open>
  Claim C2, as the code has it. For a number and a string, \<^verbatim>\<open>==\<close> and \<^verbatim>\<open>!=\<close> are
  strict: the operands are never equal, whatever their values. The operators \<^verbatim>\<open>>\<close>,
  \<^verbatim>\<open><\<close>, \<^verbatim>\<open>>=\<close> and \<^verbatim>\<open><=\<close> are those of the host: they convert the string to a
  number with \<open>Number\<close> and compare the two numbers.
\<close>

theorem comparison_of_number_and_string:
  "evalBinary h (JStr ''=='') (JNum a) (JStr s) = Inr (JBool False)
   \<and> evalBinary h (JStr ''=='') (JStr s) (JNum a) = Inr (JBool False)
   \<and> evalBinary h (JStr ''!='') (JNum a) (JStr s) = Inr (JBool True)
   \<and> evalBinary h (JStr ''!='') (JStr s) (JNum a) = Inr (JBool True)
   \<and> evalBinary h (JStr ''<'') (JNum a) (JStr s) = Inr (JBool (numLess h a (Number h s) = Some True))
   \<and> evalBinary h (JStr ''<'') (JStr s) (JNum a) = Inr (JBool (numLess h (Number h s) a = Some True))
   \<and> evalBinary h (JStr ''>'') (JNum a) (JStr s) = Inr (JBool (numLess h (Number h s) a = Some True))
   \<and> evalBinary h (JStr ''>'') (JStr s) (JNum a) = Inr (JBool (numLess h a (Number h s) = Some True))
   \<and> evalBinary h (JStr ''>='') (JNum a) (JStr s) = Inr (JBool (numLess h a (Number h s) = Some False))
   \<and> evalBinary h (JStr ''>='') (JStr s) (JNum a) = Inr (JBool (numLess h (Number h s) a = Some False))
   \<and> evalBinary h (JStr ''<='') (JNum a) (JStr s) = Inr (JBool (numLess h (Number h s) a = Some False))
   \<and> evalBinary h (JStr ''<='') (JStr s) (JNum a) = Inr (JBool (numLess h a (Number h s) = Some False))"
  by (simp add: evalBinary_def jsLess_def)

text \<open>
  Claim C2, as stated, fails: the number 2 is less than the string \<^verbatim>\<open>"10"\<close> and not
  less than the string \<^verbatim>\<open>"1"\<close>, so the string has been converted to a number (as
  strings, \<^verbatim>\<open>"2"\<close> is not less than \<^verbatim>\<open>"10"\<close>).
\<close>

theorem comparison_converts_string_counterexample:
  "evalExpression int_host (createRuntime False [])
     (BinaryExpression (JStr ''<'')
        (NumberLiteral (JNum (Some 2)) \<lparr>l_start = \<lparr>p_line = 2, p_column = 7\<rparr>, l_end = \<lparr>p_line = 2, p_column = 7\<rparr>\<rparr>)
        (StringLiteral (JStr ''10'') \<lparr>l_start = \<lparr>p_line = 2, p_column = 11\<rparr>, l_end = \<lparr>p_line = 2, p_column = 11\<rparr>\<rparr>)
        \<lparr>l_start = \<lparr>p_line = 2, p_column = 7\<rparr>, l_end = \<lparr>p_line = 2, p_column = 11\<rparr>\<rparr>)
     = Inr (JBool True)
   \<and> evalBinary int_host (JStr ''<'') (JNum (Some 2)) (JStr ''1'') = Inr (JBool False)
   \<and> evalBinary int_host (JStr ''<'') (JStr ''2'') (JStr ''10'') = Inr (JBool False)"
  by code_simp

subsection \<open>Identifiers\<close>

lemma lookupFrom_None:
  "lookupFrom fs k key = None \<longleftrightarrow> (\<forall>i<k. (fs ! i) key = None)"
  by (induction k) (auto simp: less_Suc_eq split: option.splits)

lemma lookupFrom_innermost:
  assumes "i < k" and "(fs ! i) key = Some v"
    and "\<forall>j. i < j \<and> j < k \<longrightarrow> (fs ! j) key = None"
  shows "lookupFrom fs k key = Some v"
  using assms
proof (induction k)
  case 0
  then show ?case by simp
next
  case (Suc k)
  show ?case
  proof (cases "i = k")
    case True
    with Suc.prems show ?thesis by simp
  next
    case False
    with Suc.prems have "i < k" and "(fs ! k) key = None"
      by auto
    with Suc show ?thesis by simp
  qed
qed

text \<open>
  Claim C6. An \<open>Identifier\<close> evaluates to the value that the innermost frame containing
  the name binds: the frame at the greatest index \<open>i\<close> of the stack that has the name.
  When no frame has the name, the evaluation throws the error \<^verbatim>\<open>Undefined variable\<close>
  whose line and column are those of the start of the identifier's own \<open>loc\<close>.
\<close>

theorem identifier_innermost_frame:
  "(i < length (envStack rt)
      \<and> (envStack rt ! i) (jsToString h name) = Some v
      \<and> (\<forall>j. i < j \<and> j < length (envStack rt) \<longrightarrow> (envStack rt ! j) (jsToString h name) = None)
     \<longrightarrow> evalExpression h rt (Identifier name l) = Inr v)
   \<and> ((\<forall>i<length (envStack rt). (envStack rt ! i) (jsToString h name) = None)
     \<longrightarrow> evalExpression h rt (Identifier name l) =
           Inl (Thrown (QastError
                  (''Undefined variable '' @ [CHR 0x27] @ jsToString h name @ [CHR 0x27])
                  FUndefined (p_line (l_start l)) (p_column (l_start l)) FUndefined)))"
proof (intro conjI impI)
  assume "i < length (envStack rt)
      \<and> (envStack rt ! i) (jsToString h name) = Some v
      \<and> (\<forall>j. i < j \<and> j < length (envStack rt) \<longrightarrow> (envStack rt ! j) (jsToString h name) = None)"
  then have "lookupFrom (envStack rt) (length (envStack rt)) (jsToString h name) = Some v"
    by (intro lookupFrom_innermost [of i]) simp_all
  then show "evalExpression h rt (Identifier name l) = Inr v"
    by (simp add: getVar_def)
next
  assume "\<forall>i<length (envStack rt). (envStack rt ! i) (jsToString h name) = None"
  then have "lookupFrom (envStack rt) (length (envStack rt)) (jsToString h name) = None"
    by (simp add: lookupFrom_None)
  then show "evalExpression h rt (Identifier name l) =
           Inl (Thrown (QastError
                  (''Undefined variable '' @ [CHR 0x27] @ jsToString h name @ [CHR 0x27])
                  FUndefined (p_line (l_start l)) (p_column (l_start l)) FUndefined))"
    by (simp add: getVar_def)
qed

text \<open>
  An instance: a stack of two frames that both bind \<open>x\<close>, and the identifiers \<open>x\<close> and \<open>y\<close>
  at line 3, column 7.
\<close>

theorem identifier_innermost_frame_witness:
  "evalExpression int_host runtime2 (Identifier (JStr ''x'') loc37) = Inr (JNum (Some 2))
   \<and> evalExpression int_host runtime2 (Identifier (JStr ''y'') loc37) =
       Inl (Thrown (QastError (''Undefined variable '' @ [CHR 0x27] @ ''y'' @ [CHR 0x27])
                      FUndefined 3 7 FUndefined))"
proof
  have "(stack2 ! 1) ''x'' = Some (JNum (Some 2))"
    by (simp add: stack2_def)
  moreover have "\<forall>j. 1 < j \<and> j < length stack2 \<longrightarrow> (stack2 ! j) ''x'' = None"
    by (auto simp: stack2_def)
  ultimately show "evalExpression int_host runtime2 (Identifier (JStr ''x'') loc37) = Inr (JNum (Some 2))"
    using identifier_innermost_frame [of 1 runtime2 int_host "JStr ''x''" "JNum (Some 2)" loc37]
    by (simp add: runtime2_def stack2_def)
next
  have "\<forall>i<length stack2. (stack2 ! i) ''y'' = None"
    by (simp add: stack2_def less_Suc_eq)
  then show "evalExpression int_host runtime2 (Identifier (JStr ''y'') loc37) =
       Inl (Thrown (QastError (''Undefined variable '' @ [CHR 0x27] @ ''y'' @ [CHR 0x27])
                      FUndefined 3 7 FUndefined))"
    using identifier_innermost_frame [of 0 runtime2 int_host "JStr ''y''" JNull loc37]
    by (simp add: runtime2_def loc37_def)
qed

subsection \<open>Statements without effect\<close>

text \<open>
  Claim C7, as the code has it. An \<open>IfStatement\<close>, a \<open>LoopStatement\<close>, a
  \<open>WhileStatement\<close> and a \<open>FunctionDef\<close> do not return and leave the runtime as
  \<open>traceStatement\<close> leaves it: the frame stack is unchanged, and the output grows by the
  one line of the trace when the trace is on and by nothing when it is off. The program
  \<^verbatim>\<open>new qas\<close>, \<^verbatim>\<open>q.loop 3 end\<close>, \<^verbatim>\<open>q.print 1\<close>, run with the trace off, writes the number
  1 once and nothing else.
\<close>

theorem control_flow_statements_do_nothing:
  "evalStatement h (IfStatement tests alt l) rt =
      Inr (traceStatement (IfStatement tests alt l) rt, None)
   \<and> evalStatement h (LoopStatement c b l) rt =
      Inr (traceStatement (LoopStatement c b l) rt, None)
   \<and> evalStatement h (WhileStatement t b l) rt =
      Inr (traceStatement (WhileStatement t b l) rt, None)
   \<and> evalStatement h (FunctionDef x ps b l) rt =
      Inr (traceStatement (FunctionDef x ps b l) rt, None)
   \<and> envStack (traceStatement node rt) = envStack rt
   \<and> inputLines (traceStatement node rt) = inputLines rt
   \<and> outLog (traceStatement node rt) =
       outLog rt @ (if trace rt then [ConsoleLog (JStr (''[trace] '' @ typeName node))] else [])
   \<and> shown (runSource int_host 6 False []
         (''new qas'' @ [LF] @ ''q.loop 3 end'' @ [LF] @ ''q.print 1'' @ [LF]) ''loop.qast'')
       = Inr ([ConsoleLog (JNum (Some 1))], None)"
proof -
  have "shown (runSource int_host 6 False []
         (''new qas'' @ [LF] @ ''q.loop 3 end'' @ [LF] @ ''q.print 1'' @ [LF]) ''loop.qast'')
       = Inr ([ConsoleLog (JNum (Some 1))], None)"
    by code_simp
  then show ?thesis
    by (simp add: evalStatement_def traceStatement_def consoleLog_def)
qed

text \<open>
  Claim C7, as stated, fails when the trace is on: the evaluation of the
  \<open>LoopStatement\<close> of \<^verbatim>\<open>q.loop 3 end\<close> writes a line.
\<close>

theorem loop_statement_writes_trace_counterexample:
  "shown (evalStatement int_host
            (LoopStatement
               (NumberLiteral (JNum (Some 3))
                  \<lparr>l_start = \<lparr>p_line = 2, p_column = 6\<rparr>, l_end = \<lparr>p_line = 2, p_column = 6\<rparr>\<rparr>)
               []
               \<lparr>l_start = \<lparr>p_line = 2, p_column = 1\<rparr>, l_end = \<lparr>p_line = 2, p_column = 6\<rparr>\<rparr>)
            (createRuntime True []))
   = Inr ([ConsoleLog (JStr ''[trace] LoopStatement'')], None)"
  by code_simp

subsection \<open>The print statement\<close>

text \<open>
  Claim C9. A \<open>PrintStatement\<close> calls the property \<open>print\<close> of the frame at index 0,
  whatever the frames above it bind: the built-in function writes the value, and calling
  any other value (or a missing property) is a \<^verbatim>\<open>TypeError\<close>. On a stack of one frame,
  \<^verbatim>\<open>set print = e\<close> binds \<open>print\<close> in that frame to the value \<open>v\<close> of \<open>e\<close>, and every
  \<open>PrintStatement\<close> after it calls \<open>v\<close>: nothing is written unless \<open>v\<close> is the built-in
  function itself.
\<close>

theorem print_statement_calls_global_print:
  "(envStack rt = g # fs \<and> evalExpression h rt a = Inr w \<longrightarrow>
      evalStatement h (PrintStatement a l) rt =
        (if g ''print'' = Some JFun
         then Inr (consoleLog (traceStatement (PrintStatement a l) rt) w, None)
         else Inl TypeError))
   \<and> (envStack rt = [g] \<and> evalExpression h rt e = Inr v \<longrightarrow>
        (\<exists>rt'. evalStatement h (SetStatement (JStr ''print'') e l') rt = Inr (rt', None)
           \<and> envStack rt' = [g(''print'' \<mapsto> v)]
           \<and> (\<forall>a l w. evalExpression h rt' a = Inr w \<longrightarrow>
                 evalStatement h (PrintStatement a l) rt' =
                   (if v = JFun
                    then Inr (consoleLog (traceStatement (PrintStatement a l) rt') w, None)
                    else Inl TypeError))))"
proof (intro conjI impI)
  assume "envStack rt = g # fs \<and> evalExpression h rt a = Inr w"
  then show "evalStatement h (PrintStatement a l) rt =
        (if g ''print'' = Some JFun
         then Inr (consoleLog (traceStatement (PrintStatement a l) rt) w, None)
         else Inl TypeError)"
    by (auto simp: evalStatement_def callGlobalPrint_def split: option.splits jsval.splits)
next
  assume a: "envStack rt = [g] \<and> evalExpression h rt e = Inr v"
  define rt' where
    "rt' = (traceStatement (SetStatement (JStr ''print'') e l') rt)\<lparr>envStack := [g(''print'' \<mapsto> v)]\<rparr>"
  have 1: "evalStatement h (SetStatement (JStr ''print'') e l') rt = Inr (rt', None)"
    using a by (simp add: evalStatement_def setVar_def rt'_def)
  have 2: "envStack rt' = [g(''print'' \<mapsto> v)]"
    by (simp add: rt'_def)
  have 3: "evalStatement h (PrintStatement a l) rt' =
             (if v = JFun
              then Inr (consoleLog (traceStatement (PrintStatement a l) rt') w, None)
              else Inl TypeError)"
    if "evalExpression h rt' a = Inr w" for a l w
    using that 2
    by (auto simp: evalStatement_def callGlobalPrint_def split: option.splits jsval.splits)
  from 1 2 3 show "\<exists>rt'. evalStatement h (SetStatement (JStr ''print'') e l') rt = Inr (rt', None)
           \<and> envStack rt' = [g(''print'' \<mapsto> v)]
           \<and> (\<forall>a l w. evalExpression h rt' a = Inr w \<longrightarrow>
                 evalStatement h (PrintStatement a l) rt' =
                   (if v = JFun
                    then Inr (consoleLog (traceStatement (PrintStatement a l) rt') w, None)
                    else Inl TypeError))"
    by blast
qed

text \<open>
  An instance: on the stack \<open>stack2\<close> the frame above the global one binds \<open>print\<close> to a
  string, which is what the identifier \<open>print\<close> evaluates to, and a \<open>PrintStatement\<close>
  still writes; after \<^verbatim>\<open>set print = 5\<close> on a new runtime, a \<open>PrintStatement\<close> calls the
  number 5.
\<close>

theorem print_statement_calls_global_print_witness:
  "shown (evalStatement int_host (PrintStatement (StringLiteral (JStr ''hi'') loc37) loc37) runtime2)
     = Inr ([ConsoleLog (JStr ''hi'')], None)
   \<and> evalExpression int_host runtime2 (Identifier (JStr ''print'') loc37) = Inr (JStr ''p'')
   \<and> (\<exists>rt'. evalStatement int_host
                (SetStatement (JStr ''print'') (NumberLiteral (JNum (Some 5)) loc37) loc37)
                (createRuntime False []) = Inr (rt', None)
          \<and> envStack rt' = [Map.empty(''print'' \<mapsto> JNum (Some 5))]
          \<and> evalStatement int_host (PrintStatement (StringLiteral (JStr ''hi'') loc37) loc37) rt'
              = Inl TypeError)"
proof (intro conjI)
  let ?p = "PrintStatement (StringLiteral (JStr ''hi'') loc37) loc37 :: int option stmt"
  have "envStack runtime2 = hd stack2 # tl stack2
          \<and> evalExpression int_host runtime2 (StringLiteral (JStr ''hi'') loc37) = Inr (JStr ''hi'')"
    by (simp add: runtime2_def stack2_def)
  then have "evalStatement int_host ?p runtime2 =
        (if hd stack2 ''print'' = Some JFun
         then Inr (consoleLog (traceStatement ?p runtime2) (JStr ''hi''), None)
         else Inl TypeError)"
    using print_statement_calls_global_print [THEN conjunct1, rule_format,
        of runtime2 "hd stack2" "tl stack2" int_host "StringLiteral (JStr ''hi'') loc37" "JStr ''hi''" loc37]
    by blast
  then show "shown (evalStatement int_host ?p runtime2) = Inr ([ConsoleLog (JStr ''hi'')], None)"
    by (simp add: stack2_def shown_def consoleLog_def traceStatement_def runtime2_def)
next
  show "evalExpression int_host runtime2 (Identifier (JStr ''print'') loc37) = Inr (JStr ''p'')"
    by (simp add: getVar_def runtime2_def stack2_def numeral_2_eq_2)
next
  let ?g = "Map.empty(''print'' \<mapsto> (JFun :: int option jsval))"
  let ?e = "NumberLiteral (JNum (Some 5)) loc37 :: int option expr"
  let ?rt = "createRuntime False [] :: int option runtime"
  have "envStack ?rt = [?g] \<and> evalExpression int_host ?rt ?e = Inr (JNum (Some 5))"
    by (simp add: createRuntime_def)
  then obtain rt' where 1: "evalStatement int_host (SetStatement (JStr ''print'') ?e loc37) ?rt = Inr (rt', None)"
    and 2: "envStack rt' = [?g(''print'' \<mapsto> JNum (Some 5))]"
    and 3: "\<forall>a l w. evalExpression int_host rt' a = Inr w \<longrightarrow>
                 evalStatement int_host (PrintStatement a l) rt' =
                   (if JNum (Some 5) = (JFun :: int option jsval)
                    then Inr (consoleLog (traceStatement (PrintStatement a l) rt') w, None)
                    else Inl TypeError)"
    using print_statement_calls_global_print [THEN conjunct2, rule_format,
        of ?rt ?g int_host ?e "JNum (Some 5)" loc37]
    by blast
  have "evalStatement int_host (PrintStatement (StringLiteral (JStr ''hi'') loc37) loc37) rt' = Inl TypeError"
    using 3 [rule_format, of "StringLiteral (JStr ''hi'') loc37" "JStr ''hi''" loc37] by simp
  with 1 2 show "\<exists>rt'. evalStatement int_host
                (SetStatement (JStr ''print'') (NumberLiteral (JNum (Some 5)) loc37) loc37)
                (createRuntime False []) = Inr (rt', None)
          \<and> envStack rt' = [Map.empty(''print'' \<mapsto> JNum (Some 5))]
          \<and> evalStatement int_host (PrintStatement (StringLiteral (JStr ''hi'') loc37) loc37) rt'
              = Inl TypeError"
    by auto
qed

subsection \<open>The return statement\<close>





section \<open>Properties of the tokenizer\<close>

subsection \<open>What the tokenizer returns\<close>

lemma isQastErrorObject_QastError:
  "isTextOrUndefined f \<Longrightarrow> isTextOrUndefined hn \<Longrightarrow> isQastErrorObject (QastError m f l c hn)"
  by (simp add: isQastErrorObject_def QastError_def getField_def isText_def isCount_def)

lemma isTextOrUndefined_simps [simp]:
  "isTextOrUndefined (FStr s)" "isTextOrUndefined FUndefined"
  by (simp_all add: isTextOrUndefined_def)

lemma isQastErrorObject_carriesPosition: "isQastErrorObject e \<Longrightarrow> carriesPosition e"
  by (simp add: isQastErrorObject_def carriesPosition_def)

lemma fileError_QastError:
  "isTextOrUndefined hn \<Longrightarrow> fileError fl (QastError m (FStr fl) l c hn)"
  by (simp add: fileError_def isQastErrorObject_QastError) (simp add: QastError_def getField_def)

lemma isQastErrorObject_no_kind: "isQastErrorObject e \<Longrightarrow> \<not> hasField e ''kind''"
proof -
  assume "isQastErrorObject e"
  then have "map fst e =
      [''stack'', ''message'', ''name'', ''isQastError'', ''file'', ''line'', ''column'', ''hint'']"
    by (simp add: isQastErrorObject_def)
  moreover have "fst ` set e = set (map fst e)"
    by simp
  ultimately have "fst ` set e =
      set [''stack'', ''message'', ''name'', ''isQastError'', ''file'', ''line'', ''column'', ''hint'']"
    by (simp only:)
  then have "''kind'' \<notin> fst ` set e"
    by simp
  then show ?thesis
    by (simp add: hasField_def map_of_eq_None_iff)
qed

lemma keywordOrIdent_not_EOF: "keywordOrIdent v \<noteq> ''EOF''"
  by (auto simp: keywordOrIdent_def KEYWORDS_def toUpperCase_def toUpper_def)

lemma noEOF_append [simp]: "noEOF (ts @ us) \<longleftrightarrow> noEOF ts \<and> noEOF us"
  by (simp add: noEOF_def)

lemma noEOF_mkToken [simp]: "noEOF [mkToken ty v l c f] \<longleftrightarrow> ty \<noteq> ''EOF''"
  by (simp add: noEOF_def mkToken_def)

lemma lexOk_Inr [simp]: "lexOk P tokens (Inr ts) \<longleftrightarrow> (noEOF tokens \<longrightarrow> noEOF ts)"
  by (simp add: lexOk_def)

lemma lexOk_Inl [simp]: "lexOk P tokens (Inl e) \<longleftrightarrow> P e"
  by (simp add: lexOk_def)

lemma lexOk_push:
  "lexOk P (tokens @ [mkToken ty v l c f]) r \<Longrightarrow> ty \<noteq> ''EOF'' \<Longrightarrow> lexOk P tokens r"
  by (cases r) simp_all

lemma lexOk_mono: "lexOk P tokens r \<Longrightarrow> (\<And>e. P e \<Longrightarrow> Q e) \<Longrightarrow> lexOk Q tokens r"
  by (cases r) simp_all

lemma plainError_QastError:
  "plainError fl (QastError m (FStr fl) l c FUndefined)"
  by (simp add: plainError_def fileError_QastError) (simp add: QastError_def getField_def)

lemma readString_Inl:
  "readString s start fl ln = Inl e \<Longrightarrow> plainError fl e"
  by (auto simp: readString_def plainError_QastError split: option.splits)

lemma tokenizeLoop_lexOk: "lexOk (plainError fl) tokens (tokenizeLoop h rest pos tokens fl ln)"
proof (induction h rest pos tokens fl ln rule: tokenizeLoop.induct)
  case (1 h pos tokens fl ln)
  then show ?case by simp
next
  case (2 h ch rest pos tokens fl ln)
  show ?case
  proof (cases "isSpace ch")
    case True
    with "2.IH"(1) [OF refl True] show ?thesis by simp
  next
    case sp: False
    show ?thesis
    proof (cases "ch = CHR 0x22 \<or> ch = CHR 0x27")
      case True
      show ?thesis
      proof (cases "readString (ch # rest) pos fl ln")
        case (Inl e)
        with sp True show ?thesis
          by (simp add: readString_Inl)
      next
        case (Inr r)
        obtain v endPos rest' where r: "r = (v, endPos, rest')"
          by (cases r) auto
        from "2.IH"(2) [OF refl sp True Inr r [symmetric] refl]
        have "lexOk (plainError fl) tokens (tokenizeLoop h rest' endPos
                (tokens @ [mkToken ''STRING'' (JStr v) ln (pos + 1) fl]) fl ln)"
          by (rule lexOk_push) simp
        with sp True Inr r show ?thesis by simp
      qed
    next
      case q: False
      show ?thesis
      proof (cases "isDigit ch")
        case True
        obtain v endPos rest' where r: "readNumber h (ch # rest) pos = (v, endPos, rest')"
          by (cases "readNumber h (ch # rest) pos") auto
        from "2.IH"(3) [OF refl sp q True r [symmetric] refl]
        have "lexOk (plainError fl) tokens (tokenizeLoop h rest' endPos
                (tokens @ [mkToken ''NUMBER'' (JNum v) ln (pos + 1) fl]) fl ln)"
          by (rule lexOk_push) simp
        with sp q True r show ?thesis by simp
      next
        case d: False
        show ?thesis
        proof (cases "isIdentStart ch")
          case True
          obtain v endPos rest' where r: "readIdent (ch # rest) pos = (v, endPos, rest')"
            by (cases "readIdent (ch # rest) pos") auto
          from "2.IH"(4) [OF refl sp q d True r [symmetric] refl]
          have "lexOk (plainError fl) tokens (tokenizeLoop h rest' endPos
                  (tokens @ [mkToken (keywordOrIdent v) (JStr v) ln (pos + 1) fl]) fl ln)"
            by (rule lexOk_push) (rule keywordOrIdent_not_EOF)
          with sp q d True r show ?thesis by simp
        next
          case i: False
          show ?thesis
          proof (cases "take 2 (ch # rest) \<in> set twoCharOps")
            case True
            from "2.IH"(5) [OF refl sp q d i refl True]
            have "lexOk (plainError fl) tokens (tokenizeLoop h (drop 1 rest) (pos + 2)
                    (tokens @ [mkToken ''OP'' (JStr (take 2 (ch # rest))) ln (pos + 1) fl]) fl ln)"
              by (rule lexOk_push) simp
            with sp q d i True show ?thesis by (simp add: Let_def)
          next
            case two: False
            show ?thesis
            proof (cases "ch \<in> set oneCharOps")
              case True
              from "2.IH"(6) [OF refl sp q d i refl two True]
              have "lexOk (plainError fl) tokens (tokenizeLoop h rest (pos + 1)
                      (tokens @ [mkToken ''OP'' (JStr [ch]) ln (pos + 1) fl]) fl ln)"
                by (rule lexOk_push) simp
              with sp q d i two True show ?thesis by (simp add: Let_def)
            next
              case False
              with sp q d i two show ?thesis
                by (simp add: Let_def plainError_QastError)
            qed
          qed
        qed
      qed
    qed
  qed
qed

lemma lexOk_trans:
  "lexOk P tokens (Inr tokens') \<Longrightarrow> lexOk P tokens' r \<Longrightarrow> lexOk P tokens r"
  by (cases r) simp_all

text \<open>After the header, every error of the loop over the lines is without a hint.\<close>

lemma lexLines_after_header: "lexOk (plainError fl) tokens (lexLines h ls i True tokens fl)"
proof (induction ls arbitrary: i tokens)
  case Nil
  then show ?case by simp
next
  case (Cons raw ls)
  let ?t = "tokenizeStatement h (drop (nat (indexOf raw ''q.'' + 2)) raw) tokens fl (i + 1)"
  have t: "lexOk (plainError fl) tokens ?t"
    using tokenizeLoop_lexOk [of fl tokens h "drop (nat (indexOf raw ''q.'' + 2)) raw" 0 "i + 1"]
    by (simp add: tokenizeStatement_def)
  show ?case
  proof (cases ?t)
    case (Inl e)
    with t Cons.IH show ?thesis
      by (simp add: Let_def plainError_QastError)
  next
    case (Inr tokens')
    with t have a: "lexOk (plainError fl) tokens (Inr tokens')"
      by simp
    have "lexOk (plainError fl) tokens (lexLines h ls (i + 1) True tokens' fl)"
      using a Cons.IH by (rule lexOk_trans)
    with Inr Cons.IH show ?thesis
      by (simp add: Let_def plainError_QastError)
  qed
qed

lemma lexLines_lexOk: "lexOk (fileError fl) tokens (lexLines h ls i hf tokens fl)"
proof (cases hf)
  case True
  with lexLines_after_header [of fl tokens h ls i] show ?thesis
    by (auto intro: lexOk_mono simp: plainError_def)
next
  case False
  have "lexOk (fileError fl) tokens (lexLines h ls i False tokens fl)"
  proof (induction ls arbitrary: i)
    case Nil
    then show ?case by simp
  next
    case (Cons raw ls)
    have "lexOk (fileError fl) tokens (lexLines h ls (i + 1) True tokens fl)"
      using lexLines_after_header [of fl tokens h ls "i + 1"]
      by (auto intro: lexOk_mono simp: plainError_def)
    with Cons.IH show ?case
      by (simp add: Let_def fileError_QastError)
  qed
  with False show ?thesis by simp
qed

lemma lexLines_noEOF:
  "lexLines h ls i hf [] fl = Inr ts \<Longrightarrow> noEOF ts"
  using lexLines_lexOk [of fl "[]" h ls i hf] by (simp add: noEOF_def)

lemma lex_Inl: "lex h source fl = Inl e \<Longrightarrow> fileError fl e"
  using lexLines_lexOk [of fl "[]" h "splitLines source" 0 False]
  by (auto simp: lex_def Let_def split: sum.splits)

subsection \<open>The header\<close>

lemma headerError_not_plain: "\<not> plainError fl' (headerError fl k)"
  by (simp add: plainError_def headerError_def QastError_def getField_def)

lemma headerError_inject [simp]: "headerError fl k = headerError fl k' \<longleftrightarrow> k = k'"
  by (simp add: headerError_def QastError_def)

lemma headerError_fold:
  "QastError ''Missing QasT header (new qas).'' (FStr fl) k (Suc 0)
     (FStr ''First non-empty line must be: new qas'') = headerError fl k"
  by (simp add: headerError_def)

lemma lexLines_header_error:
  "lexLines h ls i False tokens fl = Inl (headerError fl k) \<longleftrightarrow>
     (\<exists>t. firstEffective ls i = Some (k, t) \<and> \<not> startsWith t ''new qas'')"
proof (induction ls arbitrary: i)
  case Nil
  then show ?case by simp
next
  case (Cons raw ls)
  show ?case
  proof (cases "trim raw = [] \<or> startsWith (trim raw) ''#''")
    case True
    with Cons.IH [of "i + 1"] show ?thesis
      by (auto simp: Let_def)
  next
    case eff: False
    show ?thesis
    proof (cases "startsWith (trim raw) ''new qas''")
      case True
      have "lexLines h ls (i + 1) True tokens fl \<noteq> Inl (headerError fl k)"
        using lexLines_after_header [of fl tokens h ls "i + 1"] headerError_not_plain [of fl fl k]
        by auto
      with eff True show ?thesis
        by (auto simp: Let_def)
    next
      case False
      with eff show ?thesis
        by (auto simp: Let_def headerError_fold)
    qed
  qed
qed

text \<open>
  The header test of \<open>lex\<close>, as the code has it: \<open>lex\<close> fails with the header error at line
  \<open>k\<close> exactly when the first line that is neither empty nor a comment is line \<open>k\<close> and
  does not start with \<^verbatim>\<open>new qas\<close>.
\<close>

lemma lex_header_error_iff:
  "lex h source fl = Inl (headerError fl k) \<longleftrightarrow>
     (\<exists>t. firstEffective (splitLines source) 0 = Some (k, t) \<and> \<not> startsWith t ''new qas'')"
  using lexLines_header_error [of h "splitLines source" 0 "[]" fl k]
  by (auto simp: lex_def Let_def split: sum.splits)

text \<open>
  Claim C1, at an input where the code departs from it. The first line that is neither
  empty nor a comment is \<^verbatim>\<open>new qasm\<close>, which is not the text \<^verbatim>\<open>new qas\<close>; \<open>lex\<close> takes
  it for the header, since it starts with \<^verbatim>\<open>new qas\<close>, and tokenizes the rest of the
  file.
\<close>

theorem header_with_trailing_text_accepted:
  "trim ''new qasm'' \<noteq> ''new qas''
   \<and> lex int_host (''new qasm'' @ [LF] @ ''q.print 1'' @ [LF]) ''prog.qast'' =
       Inr [mkToken ''PRINT'' (JStr ''print'') 2 1 ''prog.qast'',
            mkToken ''NUMBER'' (JNum (Some 1)) 2 7 ''prog.qast'',
            mkToken ''EOF'' JNull 3 1 ''prog.qast'']"
  by code_simp

subsection \<open>The end of the token sequence\<close>

text \<open>
  Claim C8. When \<open>lex\<close> succeeds, the token sequence is not empty, its last element is
  the \<open>EOF\<close> token at the line that is the number of lines of the source and at column 1,
  and it has exactly one token of type \<open>EOF\<close>.
\<close>

theorem lex_ends_with_one_EOF:
  assumes "lex h source fl = Inr ts"
  shows "ts \<noteq> []
    \<and> last ts = mkToken ''EOF'' JNull (length (splitLines source)) 1 fl
    \<and> length (filter (\<lambda>t. tok_type t = ''EOF'') ts) = 1
    \<and> noEOF (butlast ts)"
proof -
  from assms obtain tokens where l: "lexLines h (splitLines source) 0 False [] fl = Inr tokens"
    and ts: "ts = tokens @ [mkToken ''EOF'' JNull (length (splitLines source)) 1 fl]"
    by (auto simp: lex_def Let_def split: sum.splits)
  from l have n: "noEOF tokens"
    by (rule lexLines_noEOF)
  then have "filter (\<lambda>t. tok_type t = ''EOF'') tokens = []"
    by (simp add: noEOF_def list_all_iff filter_empty_conv)
  with ts n show ?thesis
    by (simp add: mkToken_def)
qed

theorem lex_ends_with_one_EOF_witness:
  "lex int_host (''new qas'' @ [LF] @ ''q.print 1'' @ [LF]) ''one.qast'' =
     Inr [mkToken ''PRINT'' (JStr ''print'') 2 1 ''one.qast'',
          mkToken ''NUMBER'' (JNum (Some 1)) 2 7 ''one.qast'',
          mkToken ''EOF'' JNull 3 1 ''one.qast'']
   \<and> length (splitLines (''new qas'' @ [LF] @ ''q.print 1'' @ [LF])) = 3
   \<and> last [mkToken ''PRINT'' (JStr ''print'') 2 1 ''one.qast'',
          mkToken ''NUMBER'' (JNum (Some 1)) 2 7 ''one.qast'',
          mkToken ''EOF'' (JNull :: int option jsval) 3 1 ''one.qast'']
       = mkToken ''EOF'' JNull (length (splitLines (''new qas'' @ [LF] @ ''q.print 1'' @ [LF]))) 1 ''one.qast''"
proof -
  have 1: "lex int_host (''new qas'' @ [LF] @ ''q.print 1'' @ [LF]) ''one.qast'' =
     Inr [mkToken ''PRINT'' (JStr ''print'') 2 1 ''one.qast'',
          mkToken ''NUMBER'' (JNum (Some 1)) 2 7 ''one.qast'',
          mkToken ''EOF'' JNull 3 1 ''one.qast'']"
    by code_simp
  have 2: "length (splitLines (''new qas'' @ [LF] @ ''q.print 1'' @ [LF])) = 3"
    by code_simp
  from lex_ends_with_one_EOF [OF 1] 1 2 show ?thesis
    by blast
qed

section \<open>Properties of the parser\<close>

text \<open>
  Claim C4, at an input where the code departs from it. In \<^verbatim>\<open>q.print -5\<close> the operator
  is at column 7 and the number at column 8: the \<open>loc\<close> of the \<open>UnaryExpression\<close> starts
  at column 8, at the last token of its operand. In \<^verbatim>\<open>q.input name "Who?"\<close> the prompt
  is at column 12: the \<open>loc\<close> of the \<open>InputStatement\<close> ends at column 1, where it starts.
  In \<^verbatim>\<open>q.fn add a b end\<close> the parameters are at columns 8 and 10: the \<open>loc\<close> of the
  \<open>FunctionDef\<close> ends at column 1.
\<close>

theorem loc_misses_consumed_tokens:
  "lex int_host (''new qas'' @ [LF] @ ''q.print -5'' @ [LF] @ ''q.input name \"Who?\"'' @ [LF]
                  @ ''q.fn add a b end'') ''loc.qast'' =
     Inr [mkToken ''PRINT'' (JStr ''print'') 2 1 ''loc.qast'',
          mkToken ''OP'' (JStr ''-'') 2 7 ''loc.qast'',
          mkToken ''NUMBER'' (JNum (Some 5)) 2 8 ''loc.qast'',
          mkToken ''INPUT'' (JStr ''input'') 3 1 ''loc.qast'',
          mkToken ''IDENT'' (JStr ''name'') 3 7 ''loc.qast'',
          mkToken ''STRING'' (JStr ''Who?'') 3 12 ''loc.qast'',
          mkToken ''FN'' (JStr ''fn'') 4 1 ''loc.qast'',
          mkToken ''IDENT'' (JStr ''add'') 4 4 ''loc.qast'',
          mkToken ''IDENT'' (JStr ''a'') 4 8 ''loc.qast'',
          mkToken ''IDENT'' (JStr ''b'') 4 10 ''loc.qast'',
          mkToken ''END'' (JStr ''end'') 4 12 ''loc.qast'',
          mkToken ''EOF'' JNull 4 1 ''loc.qast'']
   \<and> parse int_host 12
       [mkToken ''PRINT'' (JStr ''print'') 2 1 ''loc.qast'',
        mkToken ''OP'' (JStr ''-'') 2 7 ''loc.qast'',
        mkToken ''NUMBER'' (JNum (Some 5)) 2 8 ''loc.qast'',
        mkToken ''INPUT'' (JStr ''input'') 3 1 ''loc.qast'',
        mkToken ''IDENT'' (JStr ''name'') 3 7 ''loc.qast'',
        mkToken ''STRING'' (JStr ''Who?'') 3 12 ''loc.qast'',
        mkToken ''FN'' (JStr ''fn'') 4 1 ''loc.qast'',
        mkToken ''IDENT'' (JStr ''add'') 4 4 ''loc.qast'',
        mkToken ''IDENT'' (JStr ''a'') 4 8 ''loc.qast'',
        mkToken ''IDENT'' (JStr ''b'') 4 10 ''loc.qast'',
        mkToken ''END'' (JStr ''end'') 4 12 ''loc.qast'',
        mkToken ''EOF'' JNull 4 1 ''loc.qast''] ''loc.qast'' =
     Inr (Program
       [PrintStatement
          (UnaryExpression (JStr ''-'') (NumberLiteral (JNum (Some 5)) (span 2 8 2 8))
             (span 2 8 2 8))
          (span 2 1 2 8),
        InputStatement (JStr ''name'') (Some (JStr ''Who?'')) (span 3 1 3 1),
        FunctionDef (JStr ''add'') [JStr ''a'', JStr ''b''] [] (span 4 1 4 1)])"
  by code_simp

section \<open>Properties of the structured errors\<close>

subsection \<open>The errors of the parser\<close>

lemma thrownOk_simps [simp]:
  "thrownOk P (Inr x)"
  "thrownOk P (Inl OutOfFuel)"
  "thrownOk P (Inl TypeError)"
  "thrownOk P (Inl AwaitingInput)"
  "thrownOk P (Inl (PlainError s))"
  "thrownOk P (Inl (Thrown e)) \<longleftrightarrow> P e"
  by (simp_all add: thrownOk_def)

lemma thrownOk_QastError [simp]:
  "isTextOrUndefined hn \<Longrightarrow> thrownOk (fileError fl) (Inl (Thrown (QastError m (FStr fl) l c hn)))"
  by (simp add: fileError_QastError)

lemma thrownOk_andThen:
  "thrownOk P r \<Longrightarrow> (\<And>x. thrownOk P (k x)) \<Longrightarrow> thrownOk P (andThen r k)"
  by (cases r) (simp_all add: thrownOk_def)

lemma thrownOk_case_prod:
  "(\<And>a b. thrownOk P (k a b)) \<Longrightarrow> thrownOk P (case_prod k p)"
  by (cases p) simp

lemma thrownOk_consume [simp]: "thrownOk (fileError fl) (consume h tokens fl pos ty v)"
  by (simp add: consume_def Let_def fileError_QastError)

lemma thrownOk_prevToken [simp]: "thrownOk P (prevToken tokens pos)"
  by (simp add: prevToken_def)

lemmas thrownOk_intros = thrownOk_andThen thrownOk_case_prod

lemma parseExpression_thrownOk:
  "thrownOk (fileError fl) (parseExpression h tokens fl n pos)"
  "thrownOk (fileError fl) (parseEquality h tokens fl n pos)"
  "thrownOk (fileError fl) (equalityLoop h tokens fl n expr pos)"
  "thrownOk (fileError fl) (parseComparison h tokens fl n pos)"
  "thrownOk (fileError fl) (comparisonLoop h tokens fl n expr pos)"
  "thrownOk (fileError fl) (parseTerm h tokens fl n pos)"
  "thrownOk (fileError fl) (termLoop h tokens fl n expr pos)"
  "thrownOk (fileError fl) (parseFactor h tokens fl n pos)"
  "thrownOk (fileError fl) (factorLoop h tokens fl n expr pos)"
  "thrownOk (fileError fl) (parseUnary h tokens fl n pos)"
  "thrownOk (fileError fl) (parsePrimary h tokens fl n pos)"
proof (induction h tokens fl n pos and h tokens fl n pos and h tokens fl n expr pos
         and h tokens fl n pos and h tokens fl n expr pos
         and h tokens fl n pos and h tokens fl n expr pos
         and h tokens fl n pos and h tokens fl n expr pos
         and h tokens fl n pos and h tokens fl n pos
       rule: parseExpression_induct)
  case (1 h tokens fl n pos)
  then show ?case by (subst parseExpression.simps)
next
  case (2 h tokens fl n pos)
  then show ?case
    by (subst parseEquality.simps) (intro thrownOk_intros)
next
  case (3 h tokens fl n expr pos)
  then show ?case
    by (subst equalityLoop.simps) (auto split: nat.splits intro!: thrownOk_intros)
next
  case (4 h tokens fl n pos)
  then show ?case
    by (subst parseComparison.simps) (intro thrownOk_intros)
next
  case (5 h tokens fl n expr pos)
  then show ?case
    by (subst comparisonLoop.simps) (auto split: nat.splits intro!: thrownOk_intros)
next
  case (6 h tokens fl n pos)
  then show ?case
    by (subst parseTerm.simps) (intro thrownOk_intros)
next
  case (7 h tokens fl n expr pos)
  then show ?case
    by (subst termLoop.simps) (auto split: nat.splits intro!: thrownOk_intros)
next
  case (8 h tokens fl n pos)
  then show ?case
    by (subst parseFactor.simps) (intro thrownOk_intros)
next
  case (9 h tokens fl n expr pos)
  then show ?case
    by (subst factorLoop.simps) (auto split: nat.splits intro!: thrownOk_intros)
next
  case (10 h tokens fl n pos)
  then show ?case
    by (subst parseUnary.simps) (auto split: nat.splits intro!: thrownOk_intros)
next
  case (11 h tokens fl n pos)
  then show ?case
    by (subst parsePrimary.simps) (auto simp: Let_def fileError_QastError split: nat.splits intro!: thrownOk_intros)
qed

lemma paramsLoop_thrownOk: "thrownOk P (paramsLoop tokens n pos params)"
proof (induction n arbitrary: pos params)
  case 0
  show ?case
    by (subst paramsLoop.simps) simp
next
  case (Suc n)
  show ?case
    by (subst paramsLoop.simps) (auto intro!: thrownOk_intros Suc)
qed

lemma parseStatement_thrownOk: "thrownOk (fileError fl) (parseStatement h tokens fl n pos)"
  unfolding parseStatement_def Let_def parsePrint_def parseSet_def parseInput_def parseIf_def
    parseLoop_def parseWhile_def parseFn_def parseReturn_def
  by (auto intro!: thrownOk_intros parseExpression_thrownOk paramsLoop_thrownOk)

lemma parseBody_thrownOk: "thrownOk (fileError fl) (parseBody h tokens fl n pos stmts)"
proof (induction n arbitrary: pos stmts)
  case 0
  show ?case
    by (subst parseBody.simps) simp
next
  case (Suc n)
  show ?case
    by (subst parseBody.simps) (auto intro!: thrownOk_intros parseStatement_thrownOk Suc)
qed

lemma parse_thrownOk: "thrownOk (fileError fl) (parse h n tokens fl)"
  by (simp add: parse_def parseBody_thrownOk)

subsection \<open>The errors of the evaluator\<close>

lemma getVar_thrownOk: "thrownOk isQastErrorObject (getVar h rt name l)"
  by (simp add: getVar_def isQastErrorObject_QastError split: option.splits)

lemma evalBinary_thrownOk: "thrownOk isQastErrorObject (evalBinary h opr left right)"
  by (simp add: evalBinary_def)

lemma evalExpression_thrownOk: "thrownOk isQastErrorObject (evalExpression h rt e)"
  by (induction e) (auto intro!: thrownOk_intros getVar_thrownOk evalBinary_thrownOk)

lemma setVar_thrownOk: "thrownOk isQastErrorObject (setVar h rt name v)"
  by (simp add: setVar_def)

lemma evalStatement_thrownOk: "thrownOk isQastErrorObject (evalStatement h node rt)"
  unfolding evalStatement_def Let_def
  by (cases node)
     (auto simp: callGlobalPrint_def promptText_def input_def
           split: option.splits jsval.splits list.splits
           intro!: thrownOk_intros evalExpression_thrownOk setVar_thrownOk)

lemma evalBody_thrownOk: "thrownOk isQastErrorObject (evalBody h ss rt)"
  by (induction ss arbitrary: rt)
     (auto split: option.splits intro!: thrownOk_intros evalStatement_thrownOk)

text \<open>
  Claim C3, as the code has it. Every \<^verbatim>\<open>QastError\<close> that the tokenizer, the parser or
  the evaluator throws carries a message, a line, a column, and a hint that is a string
  or undefined; one that the tokenizer or the parser throws also carries, as its file,
  the file identifier given to that stage. None has a property \<open>kind\<close>.
\<close>

theorem thrown_errors_have_no_kind:
  "(lex h source fl = Inl e \<longrightarrow>
      carriesPosition e \<and> getField e ''file'' = FStr fl \<and> \<not> hasField e ''kind'')
   \<and> (parse h n tokens fl = Inl (Thrown e) \<longrightarrow>
         carriesPosition e \<and> getField e ''file'' = FStr fl \<and> \<not> hasField e ''kind'')
   \<and> (evalProgram h program rt = Inl (Thrown e) \<longrightarrow>
         carriesPosition e \<and> \<not> hasField e ''kind'')"
proof (intro conjI impI)
  assume "lex h source fl = Inl e"
  then have f: "fileError fl e" by (rule lex_Inl)
  then have q: "isQastErrorObject e" by (simp add: fileError_def)
  from q show "carriesPosition e" by (rule isQastErrorObject_carriesPosition)
  from f show "getField e ''file'' = FStr fl" by (simp add: fileError_def)
  from q show "\<not> hasField e ''kind''" by (rule isQastErrorObject_no_kind)
next
  assume "parse h n tokens fl = Inl (Thrown e)"
  with parse_thrownOk [where h = h and n = n and tokens = tokens and fl = fl]
  have f: "fileError fl e" by simp
  then have q: "isQastErrorObject e" by (simp add: fileError_def)
  from q show "carriesPosition e" by (rule isQastErrorObject_carriesPosition)
  from f show "getField e ''file'' = FStr fl" by (simp add: fileError_def)
  from q show "\<not> hasField e ''kind''" by (rule isQastErrorObject_no_kind)
next
  assume "evalProgram h program rt = Inl (Thrown e)"
  with evalBody_thrownOk [where h = h and ss = "body program" and rt = rt]
  have q: "isQastErrorObject e"
    by (simp add: evalProgram_def)
  from q show "carriesPosition e" by (rule isQastErrorObject_carriesPosition)
  from q show "\<not> hasField e ''kind''" by (rule isQastErrorObject_no_kind)
qed

text \<open>
  Instances: the header error of the source \<^verbatim>\<open>q.print 1\<close>, the parse error of the tokens
  of \<^verbatim>\<open>q.print\<close>, and the runtime error of \<^verbatim>\<open>q.print x\<close>.
\<close>

theorem thrown_errors_have_no_kind_witness:
  "lex int_host (''q.print 1'' @ [LF]) ''bad.qast'' =
     Inl (QastError ''Missing QasT header (new qas).'' (FStr ''bad.qast'') 1 1
            (FStr ''First non-empty line must be: new qas''))
   \<and> carriesPosition (QastError ''Missing QasT header (new qas).'' (FStr ''bad.qast'') 1 1
            (FStr ''First non-empty line must be: new qas''))
   \<and> \<not> hasField (QastError ''Missing QasT header (new qas).'' (FStr ''bad.qast'') 1 1
            (FStr ''First non-empty line must be: new qas'')) ''kind''
   \<and> parse int_host 2
        [mkToken ''PRINT'' (JStr ''print'') 2 1 ''bad.qast'',
         mkToken ''EOF'' JNull 2 1 ''bad.qast''] ''bad.qast'' =
     Inl (Thrown (QastError ''Unexpected token EOF'' (FStr ''bad.qast'') 2 1 FUndefined))
   \<and> carriesPosition (QastError ''Unexpected token EOF'' (FStr ''bad.qast'') 2 1 FUndefined)
   \<and> \<not> hasField (QastError ''Unexpected token EOF'' (FStr ''bad.qast'') 2 1 FUndefined) ''kind''
   \<and> evalProgram int_host
        (Program [PrintStatement (Identifier (JStr ''x'') (span 2 7 2 7)) (span 2 1 2 7)])
        (createRuntime False []) =
     Inl (Thrown (QastError (''Undefined variable '' @ [CHR 0x27] @ ''x'' @ [CHR 0x27])
                    FUndefined 2 7 FUndefined))
   \<and> carriesPosition (QastError (''Undefined variable '' @ [CHR 0x27] @ ''x'' @ [CHR 0x27])
                    FUndefined 2 7 FUndefined)
   \<and> \<not> hasField (QastError (''Undefined variable '' @ [CHR 0x27] @ ''x'' @ [CHR 0x27])
                    FUndefined 2 7 FUndefined) ''kind''"
proof -
  have 1: "lex int_host (''q.print 1'' @ [LF]) ''bad.qast'' =
     Inl (QastError ''Missing QasT header (new qas).'' (FStr ''bad.qast'') 1 1
            (FStr ''First non-empty line must be: new qas''))"
    by code_simp
  have 2: "parse int_host 2
        [mkToken ''PRINT'' (JStr ''print'') 2 1 ''bad.qast'',
         mkToken ''EOF'' JNull 2 1 ''bad.qast''] ''bad.qast'' =
     Inl (Thrown (QastError ''Unexpected token EOF'' (FStr ''bad.qast'') 2 1 FUndefined))"
    by code_simp
  have 3: "evalProgram int_host
        (Program [PrintStatement (Identifier (JStr ''x'') (span 2 7 2 7)) (span 2 1 2 7)])
        (createRuntime False []) =
     Inl (Thrown (QastError (''Undefined variable '' @ [CHR 0x27] @ ''x'' @ [CHR 0x27])
                    FUndefined 2 7 FUndefined))"
    by (simp add: evalProgram_def evalStatement_def getVar_def createRuntime_def span_def
          traceStatement_def)
  from 1 2 3 show ?thesis
    using thrown_errors_have_no_kind [THEN conjunct1, rule_format, OF 1]
      thrown_errors_have_no_kind [THEN conjunct2, THEN conjunct1, rule_format, OF 2]
      thrown_errors_have_no_kind [THEN conjunct2, THEN conjunct2, rule_format, OF 3]
    by blast
qed

text \<open>
  Claim C3, as stated, fails: the header error of the source \<^verbatim>\<open>q.print 1\<close> has no
  property \<open>kind\<close>; reading it gives \<^verbatim>\<open>undefined\<close>.
\<close>

theorem header_error_has_no_kind_counterexample:
  "lex int_host (''q.print 1'' @ [LF]) ''bad.qast'' =
     Inl (QastError ''Missing QasT header (new qas).'' (FStr ''bad.qast'') 1 1
            (FStr ''First non-empty line must be: new qas''))
   \<and> \<not> hasField (QastError ''Missing QasT header (new qas).'' (FStr ''bad.qast'') 1 1
            (FStr ''First non-empty line must be: new qas'')) ''kind''
   \<and> getField (QastError ''Missing QasT header (new qas).'' (FStr ''bad.qast'') 1 1
            (FStr ''First non-empty line must be: new qas'')) ''kind'' = FUndefined"
  by code_simp

section \<open>Token sequences with a logical operator\<close>

lemma resOk_simps [simp]:
  "resOk ts q (Inr (x, p)) \<longleftrightarrow> q \<le> p \<and> cursorOk ts p"
  "resOk ts q (Inl (Thrown e))"
  "\<not> resOk ts q (Inl OutOfFuel)"
  "\<not> resOk ts q (Inl TypeError)"
  "\<not> resOk ts q (Inl AwaitingInput)"
  "\<not> resOk ts q (Inl (PlainError s))"
  by (simp_all add: resOk_def)

lemma resOk_weaken: "resOk ts q r \<Longrightarrow> q' \<le> q \<Longrightarrow> resOk ts q' r"
  by (auto simp: resOk_def split: sum.splits failure.splits)

lemma resOk_andThen:
  assumes "resOk ts q r"
    and "\<And>x p. q \<le> p \<Longrightarrow> cursorOk ts p \<Longrightarrow> resOk ts q' (k (x, p))"
  shows "resOk ts q' (andThen r k)"
proof (cases r)
  case (Inl f)
  with assms(1) show ?thesis
    by (cases f) simp_all
next
  case (Inr xp)
  with assms show ?thesis
    by (cases xp) simp
qed

lemma wfTokens_EOF_last:
  assumes "wfTokens ts" and "p < length ts" and "tok_type (ts ! p) \<noteq> ''EOF''"
  shows "Suc p < length ts"
proof (rule ccontr)
  assume "\<not> Suc p < length ts"
  with assms(2) have "p = length ts - 1" by simp
  with assms(1) have "ts ! p = last ts"
    by (simp add: wfTokens_def last_conv_nth)
  with assms(1,3) show False
    by (simp add: wfTokens_def)
qed

lemma wfTokens_EOF_only_last:
  assumes "wfTokens ts" and "p < length ts" and "tok_type (ts ! p) = ''EOF''"
  shows "Suc p = length ts"
proof (rule ccontr)
  assume "Suc p \<noteq> length ts"
  with assms(2) have "p < length (butlast ts)" by simp
  moreover from this have "butlast ts ! p = ts ! p"
    by (simp add: nth_butlast)
  ultimately have "tok_type (ts ! p) \<noteq> ''EOF''"
    using assms(1) by (auto simp: wfTokens_def noEOF_def list_all_length)
  with assms(3) show False by simp
qed

lemma cursorOk_peek: "cursorOk ts p \<Longrightarrow> peek ts p = ts ! p"
  by (simp add: cursorOk_def peek_def)

lemma cursorOk_Suc:
  assumes "wfTokens ts" and "cursorOk ts p"
    and "tok_type (ts ! p) \<noteq> ''EOF''" and "\<not> logicalOp (ts ! p)"
  shows "cursorOk ts (Suc p)"
proof -
  from assms have "Suc p < length ts"
    by (auto simp: cursorOk_def intro: wfTokens_EOF_last)
  moreover from assms(2) have "take (Suc p) ts = take p ts @ [ts ! p]"
    by (simp add: cursorOk_def take_Suc_conv_app_nth)
  ultimately show ?thesis
    using assms(2,4) by (simp add: cursorOk_def)
qed

lemma matchTok_advance:
  assumes "wfTokens ts" and "cursorOk ts p" and "matchTok ts p ty v" and "accepts ty v"
  shows "cursorOk ts (p + 1)"
proof -
  from assms(2,3) have m: "matches (ts ! p) ty v"
    by (simp add: matchTok_def cursorOk_peek)
  with assms(4) have "tok_type (ts ! p) \<noteq> ''EOF''" and "\<not> logicalOp (ts ! p)"
    by (auto simp: matches_def accepts_def logicalOp_def split: option.splits)
  with assms(1,2) show ?thesis
    by (simp add: cursorOk_Suc)
qed

lemma matchTok_advance_Suc:
  "wfTokens ts \<Longrightarrow> cursorOk ts p \<Longrightarrow> matchTok ts p ty v \<Longrightarrow> accepts ty v
     \<Longrightarrow> cursorOk ts (Suc p)"
  using matchTok_advance [of ts p ty v] by simp

lemma prevToken_after: "cursorOk ts p \<Longrightarrow> prevToken ts (Suc p) = Inr (ts ! p)"
  by (simp add: prevToken_def cursorOk_def)

lemma prevToken_at: "cursorOk ts p \<Longrightarrow> 0 < p \<Longrightarrow> prevToken ts p = Inr (ts ! (p - 1))"
  by (auto simp: prevToken_def cursorOk_def)

lemma consume_resOk:
  assumes "wfTokens ts" and "cursorOk ts p" and "accepts ty v"
  shows "resOk ts (p + 1) (consume h ts fl p ty v)"
proof (cases "matches (peek ts p) ty v")
  case True
  then have "matchTok ts p ty v"
    by (simp add: matchTok_def)
  with assms have "cursorOk ts (p + 1)"
    by (intro matchTok_advance)
  with True show ?thesis
    by (simp add: consume_def Let_def)
next
  case False
  then show ?thesis
    by (simp add: consume_def Let_def)
qed

lemma accepts_simps [simp]:
  "accepts ''NUMBER'' None" "accepts ''STRING'' None" "accepts ''IDENT'' None"
  "accepts ''PRINT'' None" "accepts ''SET'' None" "accepts ''INPUT'' None"
  "accepts ''IF'' None" "accepts ''LOOP'' None" "accepts ''WHILE'' None"
  "accepts ''FN'' None" "accepts ''RETURN'' None" "accepts ''END'' None"
  "accepts ''OP'' (Some ''=='')" "accepts ''OP'' (Some ''!='')"
  "accepts ''OP'' (Some ''>'')" "accepts ''OP'' (Some ''<'')"
  "accepts ''OP'' (Some ''>='')" "accepts ''OP'' (Some ''<='')"
  "accepts ''OP'' (Some ''+'')" "accepts ''OP'' (Some ''-'')"
  "accepts ''OP'' (Some ''*'')" "accepts ''OP'' (Some ''/'')" "accepts ''OP'' (Some ''%'')"
  "accepts ''OP'' (Some ''!'')" "accepts ''OP'' (Some ''('')" "accepts ''OP'' (Some '')'')"
  "accepts ''OP'' (Some ''='')"
  by (simp_all add: accepts_def)

text \<open>One turn of a loop over binary operators, and the chain from one level to the next.\<close>

lemma loop_turn_resOk:
  assumes wf: "wfTokens ts" and cur: "cursorOk ts pos" and fuel: "length ts - pos \<le> n"
    and adv: "cursorOk ts (pos + 1)"
    and sub: "\<And>m. n = Suc m \<Longrightarrow> resOk ts (pos + 2) (operand m)"
    and loop: "\<And>m t x p. n = Suc m \<Longrightarrow> cursorOk ts p \<Longrightarrow> length ts - p \<le> m
                 \<Longrightarrow> resOk ts p (again m (mk t x) p)"
  shows "resOk ts pos
           (case n of
              0 \<Rightarrow> Inl OutOfFuel
            | Suc m \<Rightarrow>
                andThen (prevToken ts (pos + 1)) (\<lambda>t.
                andThen (operand m) (\<lambda>(right, pos'). again m (mk t right) pos')))"
proof (cases n)
  case 0
  with cur fuel show ?thesis
    by (simp add: cursorOk_def)
next
  case (Suc m)
  have "resOk ts pos (andThen (operand m) (\<lambda>(right, pos'). again m (mk (ts ! pos) right) pos'))"
  proof (rule resOk_andThen [OF sub [OF Suc]])
    fix x p
    assume "pos + 2 \<le> p" and c: "cursorOk ts p"
    with fuel Suc have "length ts - p \<le> m" by simp
    with c have "resOk ts p (again m (mk (ts ! pos) x) p)"
      by (rule loop [OF Suc])
    then show "resOk ts pos (case (x, p) of (right, pos') \<Rightarrow> again m (mk (ts ! pos) right) pos')"
      using \<open>pos + 2 \<le> p\<close> by (auto intro: resOk_weaken)
  qed
  with Suc cur show ?thesis
    by (simp add: prevToken_after)
qed

lemma chain_resOk:
  assumes fuel: "length ts - pos \<le> n"
    and sub: "resOk ts (pos + 1) r"
    and loop: "\<And>x p. cursorOk ts p \<Longrightarrow> length ts - p \<le> n \<Longrightarrow> resOk ts p (again x p)"
  shows "resOk ts (pos + 1) (andThen r (\<lambda>(expr, pos'). again expr pos'))"
proof (rule resOk_andThen [OF sub])
  fix x p
  assume "pos + 1 \<le> p" and c: "cursorOk ts p"
  with fuel have "length ts - p \<le> n" by simp
  with c have "resOk ts p (again x p)"
    by (rule loop)
  then show "resOk ts (pos + 1) (case (x, p) of (expr, pos') \<Rightarrow> again expr pos')"
    using \<open>pos + 1 \<le> p\<close> by (auto intro: resOk_weaken)
qed

lemma parseExpression_resOk:
  "wfTokens tokens \<Longrightarrow> cursorOk tokens pos \<Longrightarrow> length tokens - pos \<le> n
     \<Longrightarrow> resOk tokens (pos + 1) (parseExpression (h :: 'n host) tokens fl n pos)"
  "wfTokens tokens \<Longrightarrow> cursorOk tokens pos \<Longrightarrow> length tokens - pos \<le> n
     \<Longrightarrow> resOk tokens (pos + 1) (parseEquality h tokens fl n pos)"
  "wfTokens tokens \<Longrightarrow> cursorOk tokens pos \<Longrightarrow> length tokens - pos \<le> n
     \<Longrightarrow> resOk tokens pos (equalityLoop h tokens fl n expr pos)"
  "wfTokens tokens \<Longrightarrow> cursorOk tokens pos \<Longrightarrow> length tokens - pos \<le> n
     \<Longrightarrow> resOk tokens (pos + 1) (parseComparison h tokens fl n pos)"
  "wfTokens tokens \<Longrightarrow> cursorOk tokens pos \<Longrightarrow> length tokens - pos \<le> n
     \<Longrightarrow> resOk tokens pos (comparisonLoop h tokens fl n expr pos)"
  "wfTokens tokens \<Longrightarrow> cursorOk tokens pos \<Longrightarrow> length tokens - pos \<le> n
     \<Longrightarrow> resOk tokens (pos + 1) (parseTerm h tokens fl n pos)"
  "wfTokens tokens \<Longrightarrow> cursorOk tokens pos \<Longrightarrow> length tokens - pos \<le> n
     \<Longrightarrow> resOk tokens pos (termLoop h tokens fl n expr pos)"
  "wfTokens tokens \<Longrightarrow> cursorOk tokens pos \<Longrightarrow> length tokens - pos \<le> n
     \<Longrightarrow> resOk tokens (pos + 1) (parseFactor h tokens fl n pos)"
  "wfTokens tokens \<Longrightarrow> cursorOk tokens pos \<Longrightarrow> length tokens - pos \<le> n
     \<Longrightarrow> resOk tokens pos (factorLoop h tokens fl n expr pos)"
  "wfTokens tokens \<Longrightarrow> cursorOk tokens pos \<Longrightarrow> length tokens - pos \<le> n
     \<Longrightarrow> resOk tokens (pos + 1) (parseUnary h tokens fl n pos)"
  "wfTokens tokens \<Longrightarrow> cursorOk tokens pos \<Longrightarrow> length tokens - pos \<le> n
     \<Longrightarrow> resOk tokens (pos + 1) (parsePrimary h tokens fl n pos)"
proof (induction h tokens fl n pos and h tokens fl n pos and h tokens fl n expr pos
         and h tokens fl n pos and h tokens fl n expr pos
         and h tokens fl n pos and h tokens fl n expr pos
         and h tokens fl n pos and h tokens fl n expr pos
         and h tokens fl n pos and h tokens fl n pos
       rule: parseExpression_induct)
  case (1 h tokens fl n pos)
  then show ?case by (subst parseExpression.simps)
next
  case (2 h tokens fl n pos)
  show ?case
    by (subst parseEquality.simps)
       (rule chain_resOk [OF "2.prems"(3) "2.IH"(1) [OF "2.prems"] "2.IH"(2) [OF "2.prems"(1)]])
next
  case (3 h tokens fl n expr pos)
  note wf = "3.prems"(1) and cur = "3.prems"(2) and fuel = "3.prems"(3)
  let ?c = "matchTok tokens pos ''OP'' (Some ''=='') \<or> matchTok tokens pos ''OP'' (Some ''!='')"
  show ?case
  proof (cases ?c)
    case True
    then have adv: "cursorOk tokens (pos + 1)"
      using wf cur by (auto intro: matchTok_advance_Suc)
    have "resOk tokens pos
           (case n of
              0 \<Rightarrow> Inl OutOfFuel
            | Suc m \<Rightarrow>
                andThen (prevToken tokens (pos + 1)) (\<lambda>t.
                andThen (parseComparison h tokens fl m (pos + 1)) (\<lambda>(right, pos').
                  equalityLoop h tokens fl m
                    (BinaryExpression (tok_value t) expr right
                       (locFrom (AExpr expr) (Some (AExpr right)))) pos')))"
    proof (rule loop_turn_resOk [OF wf cur fuel adv, where
          mk = "\<lambda>(t :: 'n token) right. BinaryExpression (tok_value t) expr right
                   (locFrom (AExpr expr) (Some (AExpr right)))"])
      fix m assume n: "n = Suc m"
      with fuel have "length tokens - (pos + 1) \<le> m" by simp
      from "3.IH"(1) [OF True n wf adv this]
      show "resOk tokens (pos + 2) (parseComparison h tokens fl m (pos + 1))"
        by (simp add: add.commute)
    next
      fix m x p and t :: "'n token"
      assume n: "n = Suc m" and c: "cursorOk tokens p" and f: "length tokens - p \<le> m"
      show "resOk tokens p (equalityLoop h tokens fl m
                   (BinaryExpression (tok_value t) expr x
                      (locFrom (AExpr expr) (Some (AExpr x)))) p)"
        by (rule "3.IH"(2) [OF True n wf c f])
    qed
    with True show ?thesis
      by (subst equalityLoop.simps) (simp only: if_True)
  next
    case False
    with cur show ?thesis
      by (subst equalityLoop.simps) simp
  qed
next
  case (4 h tokens fl n pos)
  show ?case
    by (subst parseComparison.simps)
       (rule chain_resOk [OF "4.prems"(3) "4.IH"(1) [OF "4.prems"] "4.IH"(2) [OF "4.prems"(1)]])
next
  case (5 h tokens fl n expr pos)
  note wf = "5.prems"(1) and cur = "5.prems"(2) and fuel = "5.prems"(3)
  let ?c = "matchTok tokens pos ''OP'' (Some ''>'') \<or> matchTok tokens pos ''OP'' (Some ''<'')
         \<or> matchTok tokens pos ''OP'' (Some ''>='') \<or> matchTok tokens pos ''OP'' (Some ''<='')"
  show ?case
  proof (cases ?c)
    case True
    then have adv: "cursorOk tokens (pos + 1)"
      using wf cur by (auto intro: matchTok_advance_Suc)
    have "resOk tokens pos
           (case n of
              0 \<Rightarrow> Inl OutOfFuel
            | Suc m \<Rightarrow>
                andThen (prevToken tokens (pos + 1)) (\<lambda>t.
                andThen (parseTerm h tokens fl m (pos + 1)) (\<lambda>(right, pos').
                  comparisonLoop h tokens fl m
                    (BinaryExpression (tok_value t) expr right
                       (locFrom (AExpr expr) (Some (AExpr right)))) pos')))"
    proof (rule loop_turn_resOk [OF wf cur fuel adv, where
          mk = "\<lambda>(t :: 'n token) right. BinaryExpression (tok_value t) expr right
                   (locFrom (AExpr expr) (Some (AExpr right)))"])
      fix m assume n: "n = Suc m"
      with fuel have "length tokens - (pos + 1) \<le> m" by simp
      from "5.IH"(1) [OF True n wf adv this]
      show "resOk tokens (pos + 2) (parseTerm h tokens fl m (pos + 1))"
        by (simp add: add.commute)
    next
      fix m x p and t :: "'n token"
      assume n: "n = Suc m" and c: "cursorOk tokens p" and f: "length tokens - p \<le> m"
      show "resOk tokens p (comparisonLoop h tokens fl m
                   (BinaryExpression (tok_value t) expr x
                      (locFrom (AExpr expr) (Some (AExpr x)))) p)"
        by (rule "5.IH"(2) [OF True n wf c f])
    qed
    with True show ?thesis
      by (subst comparisonLoop.simps) (simp only: if_True)
  next
    case False
    with cur show ?thesis
      by (subst comparisonLoop.simps) simp
  qed
next
  case (6 h tokens fl n pos)
  show ?case
    by (subst parseTerm.simps)
       (rule chain_resOk [OF "6.prems"(3) "6.IH"(1) [OF "6.prems"] "6.IH"(2) [OF "6.prems"(1)]])
next
  case (7 h tokens fl n expr pos)
  note wf = "7.prems"(1) and cur = "7.prems"(2) and fuel = "7.prems"(3)
  let ?c = "matchTok tokens pos ''OP'' (Some ''+'') \<or> matchTok tokens pos ''OP'' (Some ''-'')"
  show ?case
  proof (cases ?c)
    case True
    then have adv: "cursorOk tokens (pos + 1)"
      using wf cur by (auto intro: matchTok_advance_Suc)
    have "resOk tokens pos
           (case n of
              0 \<Rightarrow> Inl OutOfFuel
            | Suc m \<Rightarrow>
                andThen (prevToken tokens (pos + 1)) (\<lambda>t.
                andThen (parseFactor h tokens fl m (pos + 1)) (\<lambda>(right, pos').
                  termLoop h tokens fl m
                    (BinaryExpression (tok_value t) expr right
                       (locFrom (AExpr expr) (Some (AExpr right)))) pos')))"
    proof (rule loop_turn_resOk [OF wf cur fuel adv, where
          mk = "\<lambda>(t :: 'n token) right. BinaryExpression (tok_value t) expr right
                   (locFrom (AExpr expr) (Some (AExpr right)))"])
      fix m assume n: "n = Suc m"
      with fuel have "length tokens - (pos + 1) \<le> m" by simp
      from "7.IH"(1) [OF True n wf adv this]
      show "resOk tokens (pos + 2) (parseFactor h tokens fl m (pos + 1))"
        by (simp add: add.commute)
    next
      fix m x p and t :: "'n token"
      assume n: "n = Suc m" and c: "cursorOk tokens p" and f: "length tokens - p \<le> m"
      show "resOk tokens p (termLoop h tokens fl m
                   (BinaryExpression (tok_value t) expr x
                      (locFrom (AExpr expr) (Some (AExpr x)))) p)"
        by (rule "7.IH"(2) [OF True n wf c f])
    qed
    with True show ?thesis
      by (subst termLoop.simps) (simp only: if_True)
  next
    case False
    with cur show ?thesis
      by (subst termLoop.simps) simp
  qed
next
  case (8 h tokens fl n pos)
  show ?case
    by (subst parseFactor.simps)
       (rule chain_resOk [OF "8.prems"(3) "8.IH"(1) [OF "8.prems"] "8.IH"(2) [OF "8.prems"(1)]])
next
  case (9 h tokens fl n expr pos)
  note wf = "9.prems"(1) and cur = "9.prems"(2) and fuel = "9.prems"(3)
  let ?c = "matchTok tokens pos ''OP'' (Some ''*'') \<or> matchTok tokens pos ''OP'' (Some ''/'')
         \<or> matchTok tokens pos ''OP'' (Some ''%'')"
  show ?case
  proof (cases ?c)
    case True
    then have adv: "cursorOk tokens (pos + 1)"
      using wf cur by (auto intro: matchTok_advance_Suc)
    have "resOk tokens pos
           (case n of
              0 \<Rightarrow> Inl OutOfFuel
            | Suc m \<Rightarrow>
                andThen (prevToken tokens (pos + 1)) (\<lambda>t.
                andThen (parseUnary h tokens fl m (pos + 1)) (\<lambda>(right, pos').
                  factorLoop h tokens fl m
                    (BinaryExpression (tok_value t) expr right
                       (locFrom (AExpr expr) (Some (AExpr right)))) pos')))"
    proof (rule loop_turn_resOk [OF wf cur fuel adv, where
          mk = "\<lambda>(t :: 'n token) right. BinaryExpression (tok_value t) expr right
                   (locFrom (AExpr expr) (Some (AExpr right)))"])
      fix m assume n: "n = Suc m"
      with fuel have "length tokens - (pos + 1) \<le> m" by simp
      from "9.IH"(1) [OF True n wf adv this]
      show "resOk tokens (pos + 2) (parseUnary h tokens fl m (pos + 1))"
        by (simp add: add.commute)
    next
      fix m x p and t :: "'n token"
      assume n: "n = Suc m" and c: "cursorOk tokens p" and f: "length tokens - p \<le> m"
      show "resOk tokens p (factorLoop h tokens fl m
                   (BinaryExpression (tok_value t) expr x
                      (locFrom (AExpr expr) (Some (AExpr x)))) p)"
        by (rule "9.IH"(2) [OF True n wf c f])
    qed
    with True show ?thesis
      by (subst factorLoop.simps) (simp only: if_True)
  next
    case False
    with cur show ?thesis
      by (subst factorLoop.simps) simp
  qed
next
  case (10 h tokens fl n pos)
  note wf = "10.prems"(1) and cur = "10.prems"(2) and fuel = "10.prems"(3)
  let ?c = "matchTok tokens pos ''OP'' (Some ''!'') \<or> matchTok tokens pos ''OP'' (Some ''-'')"
  show ?case
  proof (cases ?c)
    case True
    then have adv: "cursorOk tokens (pos + 1)"
      using wf cur by (auto intro: matchTok_advance_Suc)
    from cur fuel obtain m where n: "n = Suc m"
      by (cases n) (auto simp: cursorOk_def)
    with fuel have "length tokens - (pos + 1) \<le> m" by simp
    from "10.IH"(1) [OF True n wf adv this]
    have sub: "resOk tokens (pos + 2) (parseUnary h tokens fl m (pos + 1))"
      by (simp add: add.commute)
    have "resOk tokens (pos + 1)
            (andThen (parseUnary h tokens fl m (pos + 1)) (\<lambda>(right, pos').
             andThen (prevToken tokens pos') (\<lambda>t'.
               Inr (UnaryExpression (tok_value (tokens ! pos)) right
                      (locFrom (AToken t') (Some (AExpr right))), pos'))))"
      by (rule resOk_andThen [OF sub]) (simp add: prevToken_at)
    with True n cur show ?thesis
      by (subst parseUnary.simps) (simp add: prevToken_after)
  next
    case False
    from "10.IH"(2) [OF False wf cur fuel] False show ?thesis
      by (subst parseUnary.simps) simp
  qed
next
  case (11 h tokens fl n pos)
  note wf = "11.prems"(1) and cur = "11.prems"(2) and fuel = "11.prems"(3)
  have lit: "cursorOk tokens (pos + 1)"
    if "matchTok tokens pos ''NUMBER'' None \<or> matchTok tokens pos ''STRING'' None
        \<or> matchTok tokens pos ''IDENT'' None \<or> matchTok tokens pos ''OP'' (Some ''('')"
    using that wf cur by (auto intro: matchTok_advance_Suc)
  show ?case
  proof (cases "matchTok tokens pos ''NUMBER'' None \<or> matchTok tokens pos ''STRING'' None
        \<or> matchTok tokens pos ''IDENT'' None")
    case True
    with lit show ?thesis
      by (subst parsePrimary.simps) (auto simp: Let_def)
  next
    case nolit: False
    show ?thesis
    proof (cases "matchTok tokens pos ''OP'' (Some ''('')")
      case True
      with lit have adv: "cursorOk tokens (pos + 1)" by blast
      from cur fuel obtain m where n: "n = Suc m"
        by (cases n) (auto simp: cursorOk_def)
      with fuel have "length tokens - (pos + 1) \<le> m" by simp
      from nolit have n1: "\<not> matchTok tokens pos ''NUMBER'' None"
        and n2: "\<not> matchTok tokens pos ''STRING'' None"
        and n3: "\<not> matchTok tokens pos ''IDENT'' None"
        by auto
      from "11.IH" [OF refl n1 n2 n3 True n wf adv \<open>length tokens - (pos + 1) \<le> m\<close>]
      have sub: "resOk tokens (pos + 2) (parseExpression h tokens fl m (pos + 1))"
        by (simp add: add.commute)
      have "resOk tokens (pos + 1)
              (andThen (parseExpression h tokens fl m (pos + 1)) (\<lambda>(expr, pos').
               andThen (consume h tokens fl pos' ''OP'' (Some '')'')) (\<lambda>(t, pos'').
                 Inr (Grouping expr
                        (locFrom (AToken (peek tokens pos)) (Some (AExpr expr))), pos''))))"
      proof (rule resOk_andThen [OF sub])
        fix x p
        assume le: "pos + 2 \<le> p" and c: "cursorOk tokens p"
        have "resOk tokens (pos + 1)
                (andThen (consume h tokens fl p ''OP'' (Some '')'')) (\<lambda>(t, pos'').
                   Inr (Grouping x (locFrom (AToken (peek tokens pos)) (Some (AExpr x))), pos'')))"
          using le by (intro resOk_andThen [OF consume_resOk [OF wf c]]) auto
        then show "resOk tokens (pos + 1)
                (case (x, p) of (expr, pos') \<Rightarrow>
                   andThen (consume h tokens fl pos' ''OP'' (Some '')'')) (\<lambda>(t, pos'').
                     Inr (Grouping expr
                            (locFrom (AToken (peek tokens pos)) (Some (AExpr expr))), pos'')))"
          by simp
      qed
      with True nolit n show ?thesis
        by (subst parsePrimary.simps) (simp add: Let_def)
    next
      case False
      with nolit show ?thesis
        by (subst parsePrimary.simps) (simp add: Let_def)
    qed
  qed
qed

lemma resOk_consume_then:
  assumes "wfTokens ts" and "cursorOk ts p" and "accepts ty v"
    and "\<And>t p'. p + 1 \<le> p' \<Longrightarrow> cursorOk ts p' \<Longrightarrow> resOk ts q (k t p')"
  shows "resOk ts q (andThen (consume h ts fl p ty v) (\<lambda>(t, p'). k t p'))"
  using assms(4) by (intro resOk_andThen [OF consume_resOk [OF assms(1-3)]]) simp

lemma resOk_expression_then:
  assumes "wfTokens ts" and "cursorOk ts p" and "length ts - p \<le> n"
    and "\<And>e p'. p + 1 \<le> p' \<Longrightarrow> cursorOk ts p' \<Longrightarrow> resOk ts q (k e p')"
  shows "resOk ts q (andThen (parseExpression h ts fl n p) (\<lambda>(e, p'). k e p'))"
  using assms(4) by (intro resOk_andThen [OF parseExpression_resOk(1) [OF assms(1-3)]]) simp

lemma paramsLoop_resOk:
  "wfTokens ts \<Longrightarrow> cursorOk ts p \<Longrightarrow> length ts - p \<le> n
     \<Longrightarrow> resOk ts p (paramsLoop ts n p params)"
proof (induction n arbitrary: p params)
  case 0
  then show ?case
    by (subst paramsLoop.simps) (auto simp: cursorOk_def)
next
  case (Suc n)
  show ?case
  proof (cases "matchTok ts p ''IDENT'' None")
    case True
    with Suc.prems have adv: "cursorOk ts (Suc p)"
      by (auto intro: matchTok_advance_Suc)
    from Suc.prems have "length ts - Suc p \<le> n" by simp
    with Suc.prems(1) adv have "resOk ts (Suc p) (paramsLoop ts n (Suc p) (params @ [tok_value (ts ! p)]))"
      by (rule Suc.IH)
    then have "resOk ts p (paramsLoop ts n (Suc p) (params @ [tok_value (ts ! p)]))"
      by (rule resOk_weaken) simp
    with True Suc.prems show ?thesis
      by (subst paramsLoop.simps) (simp add: prevToken_after)
  next
    case False
    with Suc.prems show ?thesis
      by (subst paramsLoop.simps) simp
  qed
qed

lemma le_fuel: "length ts - p \<le> n \<Longrightarrow> p \<le> p' \<Longrightarrow> length ts - p' \<le> (n::nat)"
  by simp

lemma parsePrint_resOk:
  assumes "wfTokens ts" and "cursorOk ts pos" and "length ts - pos \<le> n"
  shows "resOk ts (pos + 1) (parsePrint h ts fl n pos)"
  unfolding parsePrint_def
  using assms
  by (intro resOk_consume_then resOk_expression_then) (auto elim: le_fuel)

lemma parseSet_resOk:
  assumes "wfTokens ts" and "cursorOk ts pos" and "length ts - pos \<le> n"
  shows "resOk ts (pos + 1) (parseSet h ts fl n pos)"
  unfolding parseSet_def
  using assms
  by (intro resOk_consume_then resOk_expression_then) (auto elim: le_fuel)

lemma parseIf_resOk:
  assumes "wfTokens ts" and "cursorOk ts pos" and "length ts - pos \<le> n"
  shows "resOk ts (pos + 1) (parseIf h ts fl n pos)"
  unfolding parseIf_def
  using assms
  by (intro resOk_consume_then resOk_expression_then) (auto elim: le_fuel)

lemma parseLoop_resOk:
  assumes "wfTokens ts" and "cursorOk ts pos" and "length ts - pos \<le> n"
  shows "resOk ts (pos + 1) (parseLoop h ts fl n pos)"
  unfolding parseLoop_def
  using assms
  by (intro resOk_consume_then resOk_expression_then) (auto elim: le_fuel)

lemma parseWhile_resOk:
  assumes "wfTokens ts" and "cursorOk ts pos" and "length ts - pos \<le> n"
  shows "resOk ts (pos + 1) (parseWhile h ts fl n pos)"
  unfolding parseWhile_def
  using assms
  by (intro resOk_consume_then resOk_expression_then) (auto elim: le_fuel)

lemma parseInput_resOk:
  assumes wf: "wfTokens ts" and cur: "cursorOk ts pos" and "length ts - pos \<le> n"
  shows "resOk ts (pos + 1) (parseInput h ts fl n pos)"
  unfolding parseInput_def
proof (intro resOk_consume_then [OF wf cur] resOk_consume_then [OF wf])
  fix start p1 ident p2
  assume "pos + 1 \<le> p1" "p1 + 1 \<le> p2" and c: "cursorOk ts p2"
  then have le: "pos + 1 \<le> p2" by simp
  show "resOk ts (pos + 1)
          (if matchTok ts p2 ''STRING'' None
           then andThen (prevToken ts (p2 + 1)) (\<lambda>t.
                  Inr (InputStatement (tok_value ident) (Some (tok_value t))
                         (locFrom (AToken start) (Some (AToken ident))), p2 + 1))
           else Inr (InputStatement (tok_value ident) None
                       (locFrom (AToken start) (Some (AToken ident))), p2))"
  proof (cases "matchTok ts p2 ''STRING'' None")
    case True
    with wf c have "cursorOk ts (Suc p2)"
      by (auto intro: matchTok_advance_Suc)
    with True c le show ?thesis
      by (simp add: prevToken_after)
  next
    case False
    with c le show ?thesis by simp
  qed
qed simp_all

lemma parseFn_resOk:
  assumes wf: "wfTokens ts" and cur: "cursorOk ts pos" and fuel: "length ts - pos \<le> n"
  shows "resOk ts (pos + 1) (parseFn h ts fl n pos)"
  unfolding parseFn_def
proof (intro resOk_consume_then [OF wf cur] resOk_consume_then [OF wf])
  fix start p1 ident p2
  assume le1: "pos + 1 \<le> p1" and le2: "p1 + 1 \<le> p2" and c: "cursorOk ts p2"
  from fuel le1 le2 have "length ts - p2 \<le> n" by simp
  with wf c have "resOk ts p2 (paramsLoop ts n p2 [])"
    by (rule paramsLoop_resOk)
  then show "resOk ts (pos + 1)
          (andThen (paramsLoop ts n p2 []) (\<lambda>(params, pos3).
           andThen (consume h ts fl pos3 ''END'' None) (\<lambda>(e, pos4).
             Inr (FunctionDef (tok_value ident) params []
                    (locFrom (AToken start) (Some (AToken ident))), pos4))))"
  proof (rule resOk_andThen)
    fix params p3
    assume "p2 \<le> p3" and c3: "cursorOk ts p3"
    with le1 le2 have "pos + 1 \<le> p3" by simp
    then have "resOk ts (pos + 1)
            (andThen (consume h ts fl p3 ''END'' None) (\<lambda>(e, pos4).
               Inr (FunctionDef (tok_value ident) params []
                      (locFrom (AToken start) (Some (AToken ident))), pos4)))"
      by (intro resOk_consume_then [OF wf c3]) simp_all
    then show "resOk ts (pos + 1)
            (case (params, p3) of (params, pos3) \<Rightarrow>
               andThen (consume h ts fl pos3 ''END'' None) (\<lambda>(e, pos4).
                 Inr (FunctionDef (tok_value ident) params []
                        (locFrom (AToken start) (Some (AToken ident))), pos4)))"
      by simp
  qed
qed simp_all

lemma parseReturn_resOk:
  assumes wf: "wfTokens ts" and cur: "cursorOk ts pos" and fuel: "length ts - pos \<le> n"
  shows "resOk ts (pos + 1) (parseReturn h ts fl n pos)"
  unfolding parseReturn_def
proof (intro resOk_consume_then [OF wf cur])
  fix start p1
  assume le: "pos + 1 \<le> p1" and c: "cursorOk ts p1"
  with fuel have f1: "length ts - p1 \<le> n" by simp
  show "resOk ts (pos + 1)
          (if tok_type (peek ts p1) \<noteq> ''EOF''
           then andThen (parseExpression h ts fl n p1) (\<lambda>(argument, pos2).
                  Inr (ReturnStatement (Some argument)
                         (locFrom (AToken start) (Some (AExpr argument))), pos2))
           else Inr (ReturnStatement None (locFrom (AToken start) (Some (AToken start))), p1))"
  proof (cases "tok_type (peek ts p1) \<noteq> ''EOF''")
    case True
    have "resOk ts (pos + 1)
            (andThen (parseExpression h ts fl n p1) (\<lambda>(argument, pos2).
               Inr (ReturnStatement (Some argument)
                      (locFrom (AToken start) (Some (AExpr argument))), pos2)))"
      using le by (intro resOk_expression_then [OF wf c f1]) simp
    with True show ?thesis by simp
  next
    case False
    with c le show ?thesis by simp
  qed
qed simp

lemma parseStatement_resOk:
  assumes wf: "wfTokens ts" and cur: "cursorOk ts pos" and fuel: "length ts - pos \<le> n"
  shows "resOk ts (pos + 1) (parseStatement h ts fl n pos)"
proof -
  have "resOk ts (pos + 1)
          (andThen (parseExpression h ts fl n pos) (\<lambda>(expr, pos').
             Inr (ExprStatement expr (locFrom (AExpr expr) None), pos')))"
    by (intro resOk_expression_then [OF wf cur fuel]) simp
  then show ?thesis
    unfolding parseStatement_def Let_def
    using parsePrint_resOk [OF assms, of h fl] parseSet_resOk [OF assms, of h fl]
      parseInput_resOk [OF assms, of h fl] parseIf_resOk [OF assms, of h fl]
      parseLoop_resOk [OF assms, of h fl] parseWhile_resOk [OF assms, of h fl]
      parseFn_resOk [OF assms, of h fl] parseReturn_resOk [OF assms, of h fl]
    by simp
qed

lemma bodyOk_andThen:
  assumes "resOk ts q r"
    and "\<And>x p. q \<le> p \<Longrightarrow> cursorOk ts p \<Longrightarrow> bodyOk ts (k (x, p))"
  shows "bodyOk ts (andThen r k)"
proof (cases r)
  case (Inl f)
  with assms(1) show ?thesis
    by (cases f) (simp_all add: bodyOk_def)
next
  case (Inr xp)
  with assms show ?thesis
    by (cases xp) simp
qed

lemma parseBody_bodyOk:
  "wfTokens ts \<Longrightarrow> cursorOk ts pos \<Longrightarrow> length ts - pos \<le> n
     \<Longrightarrow> bodyOk ts (parseBody h ts fl n pos stmts)"
proof (induction n arbitrary: pos stmts)
  case 0
  then show ?case
    by (subst parseBody.simps) (auto simp: cursorOk_def)
next
  case (Suc n)
  note wf = Suc.prems(1) and cur = Suc.prems(2) and fuel = Suc.prems(3)
  show ?case
  proof (cases "tok_type (peek ts pos) \<noteq> ''EOF''")
    case True
    have "bodyOk ts
            (andThen (parseStatement h ts fl (Suc n) pos) (\<lambda>(s, pos').
               parseBody h ts fl n pos' (stmts @ [s])))"
    proof (rule bodyOk_andThen [OF parseStatement_resOk [OF wf cur fuel]])
      fix x p
      assume "pos + 1 \<le> p" and c: "cursorOk ts p"
      with fuel have "length ts - p \<le> n" by simp
      with wf c have "bodyOk ts (parseBody h ts fl n p (stmts @ [x]))"
        by (rule Suc.IH)
      then show "bodyOk ts (case (x, p) of (s, pos') \<Rightarrow> parseBody h ts fl n pos' (stmts @ [s]))"
        by simp
    qed
    with True show ?thesis
      by (subst parseBody.simps) simp
  next
    case False
    with cur have eof: "tok_type (ts ! pos) = ''EOF''"
      by (simp add: cursorOk_peek)
    from cur have lt: "pos < length ts"
      by (simp add: cursorOk_def)
    from wf lt eof have full: "Suc pos = length ts"
      by (rule wfTokens_EOF_only_last)
    from lt have a: "take (Suc pos) ts = take pos ts @ [ts ! pos]"
      by (rule take_Suc_conv_app_nth)
    from full have b: "take (Suc pos) ts = ts"
      by simp
    from eof have "\<not> logicalOp (ts ! pos)"
      by (simp add: logicalOp_def)
    moreover from cur have "list_all (\<lambda>t. \<not> logicalOp t) (take pos ts)"
      by (simp add: cursorOk_def)
    ultimately have "list_all (\<lambda>t. \<not> logicalOp t) (take (Suc pos) ts)"
      unfolding a by simp
    then have "list_all (\<lambda>t. \<not> logicalOp t) ts"
      unfolding b .
    with False show ?thesis
      by (subst parseBody.simps) (simp add: bodyOk_def)
  qed
qed

lemma lex_wfTokens: "lex h source fl = Inr ts \<Longrightarrow> wfTokens ts"
proof -
  assume "lex h source fl = Inr ts"
  then obtain tokens where l: "lexLines h (splitLines source) 0 False [] fl = Inr tokens"
    and ts: "ts = tokens @ [mkToken ''EOF'' JNull (length (splitLines source)) 1 fl]"
    by (auto simp: lex_def Let_def split: sum.splits)
  from l have "noEOF tokens"
    by (rule lexLines_noEOF)
  with ts show ?thesis
    by (simp add: wfTokens_def mkToken_def)
qed

text \<open>
  Claim C10. The tokenizer emits an \<open>OP\<close> token for \<^verbatim>\<open>&&\<close> and for \<^verbatim>\<open>||\<close>. For a token
  sequence (ending with its only \<open>EOF\<close> token, as every result of \<open>lex\<close> does) that
  contains such a token, and a budget that is at least the length of the sequence, \<open>parse\<close>
  throws an error: it never returns a program, and it does not run out of budget.
\<close>

theorem logical_operator_never_parses:
  "tokenizeStatement h ''&&'' [] fl ln = Inr [mkToken ''OP'' (JStr ''&&'') ln 1 fl]
   \<and> tokenizeStatement h ''||'' [] fl ln = Inr [mkToken ''OP'' (JStr ''||'') ln 1 fl]
   \<and> (lex h source fl = Inr tokens \<longrightarrow> wfTokens tokens)
   \<and> (wfTokens tokens \<and> t \<in> set tokens \<and> logicalOp t \<and> length tokens \<le> n \<longrightarrow>
        (\<exists>e. parse h n tokens fl = Inl (Thrown e) \<and> isQastErrorObject e))"
proof (intro conjI impI)
  show "tokenizeStatement h ''&&'' [] fl ln = Inr [mkToken ''OP'' (JStr ''&&'') ln 1 fl]"
    by (simp add: tokenizeStatement_def isSpace_def isDigit_def isIdentStart_def Let_def
          twoCharOps_def)
  show "tokenizeStatement h ''||'' [] fl ln = Inr [mkToken ''OP'' (JStr ''||'') ln 1 fl]"
    by (simp add: tokenizeStatement_def isSpace_def isDigit_def isIdentStart_def Let_def
          twoCharOps_def)
next
  assume "lex h source fl = Inr tokens"
  then show "wfTokens tokens" by (rule lex_wfTokens)
next
  assume a: "wfTokens tokens \<and> t \<in> set tokens \<and> logicalOp t \<and> length tokens \<le> n"
  then have wf: "wfTokens tokens" and ne: "tokens \<noteq> []"
    by (simp_all add: wfTokens_def)
  from ne have "cursorOk tokens 0"
    by (simp add: cursorOk_def)
  moreover from a have "length tokens - 0 \<le> n" by simp
  ultimately have ok: "bodyOk tokens (parseBody h tokens fl n 0 [])"
    by (rule parseBody_bodyOk [OF wf])
  from a have "\<not> list_all (\<lambda>t. \<not> logicalOp t) tokens"
    by (auto simp: list_all_iff)
  with ok obtain e where e: "parseBody h tokens fl n 0 [] = Inl (Thrown e)"
    by (auto simp: bodyOk_def split: sum.splits failure.splits)
  with ne have p: "parse h n tokens fl = Inl (Thrown e)"
    by (simp add: parse_def)
  with parse_thrownOk [where h = h and n = n and tokens = tokens and fl = fl]
  have "isQastErrorObject e"
    by (simp add: fileError_def)
  with p show "\<exists>e. parse h n tokens fl = Inl (Thrown e) \<and> isQastErrorObject e"
    by blast
qed

text \<open>
  An instance: the tokens of \<^verbatim>\<open>new qas\<close>, \<^verbatim>\<open>q.print 1 && 2\<close>. The parser throws at the
  operator, at line 2 and column 9.
\<close>

theorem logical_operator_never_parses_witness:
  "lex int_host (''new qas'' @ [LF] @ ''q.print 1 && 2'') ''and.qast'' = Inr tokensAnd
   \<and> wfTokens tokensAnd
   \<and> logicalOp (tokensAnd ! 2)
   \<and> (\<exists>e. parse int_host 5 tokensAnd ''and.qast'' = Inl (Thrown e) \<and> isQastErrorObject e)
   \<and> parse int_host 5 tokensAnd ''and.qast'' =
       Inl (Thrown (QastError ''Unexpected token OP'' (FStr ''and.qast'') 2 9 FUndefined))"
proof -
  have 1: "lex int_host (''new qas'' @ [LF] @ ''q.print 1 && 2'') ''and.qast'' = Inr tokensAnd"
    by code_simp
  have 2: "wfTokens tokensAnd"
    using logical_operator_never_parses [THEN conjunct2, THEN conjunct2, THEN conjunct1,
        rule_format, OF 1] .
  have 3: "logicalOp (tokensAnd ! 2)"
    by code_simp
  have 4: "tokensAnd ! 2 \<in> set tokensAnd"
    by (simp add: tokensAnd_def)
  have 5: "length tokensAnd \<le> 5"
    by (simp add: tokensAnd_def)
  have 6: "\<exists>e. parse int_host 5 tokensAnd ''and.qast'' = Inl (Thrown e) \<and> isQastErrorObject e"
    using logical_operator_never_parses [THEN conjunct2, THEN conjunct2, THEN conjunct2,
        rule_format, of tokensAnd "tokensAnd ! 2" 5 int_host "''and.qast''"] 2 3 4 5
    by blast
  have 7: "parse int_host 5 tokensAnd ''and.qast'' =
       Inl (Thrown (QastError ''Unexpected token OP'' (FStr ''and.qast'') 2 9 FUndefined))"
    by code_simp
  from 1 2 3 6 7 show ?thesis by blast
qed

end
